theory Spec2Isabelle
  imports Main "HOL-Library.Word"
begin

unbundle bit_operations_syntax

section \<open>Constants of fsWithoutPermissions.c\<close>

definition BLOCK_SIZE :: nat where "BLOCK_SIZE = 4096"
definition NUM_BLOCKS :: nat where "NUM_BLOCKS = 1024"
definition INODE_TABLE_SIZE :: nat where "INODE_TABLE_SIZE = 128"
definition MAX_FILENAME_LEN :: nat where "MAX_FILENAME_LEN = 255"
definition MAX_FILES :: nat where "MAX_FILES = 128"
definition DIRECT_BLOCKS :: nat where "DIRECT_BLOCKS = 12"
definition MAX_ACL_ENTRIES :: nat where "MAX_ACL_ENTRIES = 10"
definition JOURNAL_SIZE :: nat where "JOURNAL_SIZE = 1024"

definition PERMISSION_READ :: "32 word" where "PERMISSION_READ = 4"
definition PERMISSION_WRITE :: "32 word" where "PERMISSION_WRITE = 2"
definition PERMISSION_EXECUTE :: "32 word" where "PERMISSION_EXECUTE = 1"

section \<open>Data model\<close>

text \<open>
  The C structs become records. A fixed C array is a list of the array's length; an
  array that is used together with a fill count (\<open>acl\<close>/\<open>acl_count\<close>,
  \<open>entries\<close>/\<open>entry_count\<close>) keeps both the array and the count. \<open>int\<close> fields
  that the code decrements are HOL integers, \<open>unsigned int\<close> fields are 32-bit words,
  and the counts and ring index, which the code only moves inside their array, are
  naturals. \<open>time_t\<close> values are integers. The counters stay far inside the range of
  \<open>int\<close> in every state the statements below are about, so no wrap-around is written
  out. Where the C code would read or write outside an array, its behaviour is
  undefined; the statements below carry the lengths and ranges that exclude it as
  hypotheses.
\<close>

datatype JournalOperation = CREATE | DELETE | MODIFY | RENAME | READ | CHANGE_PERMISSIONS

text \<open>The field \<open>operation\<close> can also hold the \<open>-1\<close> that \<open>string_to_operation\<close>
  returns for an unknown tag: that value is \<open>None\<close>.\<close>

record JournalEntry =
  je_operation :: "JournalOperation option"
  je_filename :: string
  je_new_filename :: string
  je_data :: string
  je_timestamp :: int

record Superblock =
  sb_size :: int
  num_blocks :: int
  free_blocks :: int
  inode_table_size :: int
  free_inode_count :: int
  free_block_bitmap :: "int list"

record ACL_Entry =
  user_id :: int
  permissions :: "32 word"

record Inode =
  is_directory :: int
  i_size :: int
  direct_blocks :: "int list"
  index_block :: int
  mode :: "32 word"
  atime :: int
  mtime :: int
  ctime :: int
  owner_id :: int
  group_id :: int
  acl :: "ACL_Entry list"
  acl_count :: nat

record DirectoryEntry =
  de_name :: string
  inode_number :: int

record Directory =
  entries :: "DirectoryEntry list"
  entry_count :: nat

text \<open>
  The host operating system is an external collaborator. The model keeps what the code
  can observe of it: the files under their full path with their content, the paths on
  which the host refuses to create, remove or rename a file, the text of
  \<open>journal.log\<close> (absent when the file does not exist), whether \<open>journal.log\<close> can be
  opened for writing, the snapshot \<open>file_system_state.dat\<close>, and the clock: the
  \<open>k\<close>-th call of \<open>time(NULL)\<close> in the run returns \<open>clock k\<close>.
\<close>

record Host =
  host_files :: "string \<rightharpoonup> string"
  host_denied :: "string set"
  journal_log :: "string option"
  journal_log_writable :: bool
  snapshot :: "(Superblock \<times> Inode list) option"
  clock :: "nat \<Rightarrow> int"
  time_calls :: nat

text \<open>The module-level variables of the program, and the host, form the state.\<close>

record fs_state =
  superblock :: Superblock
  inode_table :: "Inode list"
  root_directory :: Directory
  journal :: "JournalEntry list"
  journal_index :: nat
  current_user_id :: int
  current_group_id :: int
  TEST_FOLDER_PATH :: string
  host :: Host

section \<open>Initialisation\<close>

definition zero_acl_entry :: ACL_Entry where
  "zero_acl_entry = \<lparr>user_id = 0, permissions = 0\<rparr>"

text \<open>An inode after \<open>memset(inode_table[i], 0, sizeof(Inode))\<close>.\<close>

definition zero_inode :: Inode where
  "zero_inode = \<lparr>is_directory = 0, i_size = 0, direct_blocks = replicate DIRECT_BLOCKS 0,
     index_block = 0, mode = 0, atime = 0, mtime = 0, ctime = 0, owner_id = 0, group_id = 0,
     acl = replicate MAX_ACL_ENTRIES zero_acl_entry, acl_count = 0\<rparr>"

definition zero_directory_entry :: DirectoryEntry where
  "zero_directory_entry = \<lparr>de_name = [], inode_number = 0\<rparr>"

definition zero_journal_entry :: JournalEntry where
  "zero_journal_entry = \<lparr>je_operation = Some CREATE, je_filename = [], je_new_filename = [],
     je_data = [], je_timestamp = 0\<rparr>"

text \<open>The state of the globals when \<open>main\<close> starts: static storage is zeroed, the user,
  group and folder have their initialisers.\<close>

definition startup_state :: "string \<Rightarrow> Host \<Rightarrow> fs_state" where
  "startup_state folder h =
     \<lparr>superblock = \<lparr>sb_size = 0, num_blocks = 0, free_blocks = 0, inode_table_size = 0,
         free_inode_count = 0, free_block_bitmap = replicate NUM_BLOCKS 0\<rparr>,
      inode_table = replicate INODE_TABLE_SIZE zero_inode,
      root_directory = \<lparr>entries = replicate MAX_FILES zero_directory_entry, entry_count = 0\<rparr>,
      journal = replicate JOURNAL_SIZE zero_journal_entry,
      journal_index = 0,
      current_user_id = 11,
      current_group_id = 10,
      TEST_FOLDER_PATH = folder,
      host = h\<rparr>"

text \<open>\<open>load_file_system_state\<close>: without a snapshot nothing changes; with one, the
  superblock and the first \<open>inode_table_size\<close> inode slots are read back.\<close>

definition load_file_system_state :: "fs_state \<Rightarrow> fs_state" where
  "load_file_system_state s =
     (case snapshot (host s) of
        None \<Rightarrow> s
      | Some (sb, inodes) \<Rightarrow>
          s\<lparr>superblock := sb,
            inode_table := take (nat (inode_table_size sb)) inodes
                           @ drop (nat (inode_table_size sb)) (inode_table s)\<rparr>)"

definition init_file_system :: "fs_state \<Rightarrow> fs_state" where
  "init_file_system s =
     load_file_system_state
       (s\<lparr>superblock := \<lparr>sb_size = int NUM_BLOCKS * int BLOCK_SIZE,
                          num_blocks = int NUM_BLOCKS,
                          free_blocks = int NUM_BLOCKS - 1,
                          inode_table_size = int INODE_TABLE_SIZE,
                          free_inode_count = int INODE_TABLE_SIZE,
                          free_block_bitmap = replicate NUM_BLOCKS 0\<rparr>,
          inode_table := replicate INODE_TABLE_SIZE zero_inode,
          root_directory := (root_directory s)\<lparr>entry_count := 0\<rparr>\<rparr>)"

section \<open>Block allocator\<close>

text \<open>The number of bitmap cells that read as free (\<open>0\<close>), and as used.\<close>

definition count_free_blocks :: "Superblock \<Rightarrow> nat" where
  "count_free_blocks sb = length (filter (\<lambda>b. b = 0) (take NUM_BLOCKS (free_block_bitmap sb)))"

definition count_used_blocks :: "Superblock \<Rightarrow> nat" where
  "count_used_blocks sb = length (filter (\<lambda>b. b \<noteq> 0) (take NUM_BLOCKS (free_block_bitmap sb)))"

text \<open>The scan \<open>for (i = 0; i < NUM_BLOCKS; i++) if (bitmap[i] == 0) ...\<close>, from index
  \<open>i\<close> on.\<close>

function first_free_block :: "int list \<Rightarrow> nat \<Rightarrow> nat option" where
  "first_free_block bm i =
     (if i < NUM_BLOCKS
      then (if bm ! i = 0 then Some i else first_free_block bm (Suc i))
      else None)"
  by pat_completeness auto
termination
  by (relation "measure (\<lambda>(bm, i). NUM_BLOCKS - i)") auto

declare first_free_block.simps [simp del]

definition allocate_block :: "fs_state \<Rightarrow> int \<times> fs_state" where
  "allocate_block s =
     (case first_free_block (free_block_bitmap (superblock s)) 0 of
        None \<Rightarrow> (-1, s)
      | Some i \<Rightarrow>
          (int i,
           s\<lparr>superblock := (superblock s)
               \<lparr>free_block_bitmap := (free_block_bitmap (superblock s))[i := 1],
                free_blocks := free_blocks (superblock s) - 1\<rparr>\<rparr>))"

definition free_block_sb :: "Superblock \<Rightarrow> int \<Rightarrow> Superblock" where
  "free_block_sb sb block_number =
     (if block_number < 0 \<or> block_number \<ge> int NUM_BLOCKS then sb
      else if free_block_bitmap sb ! nat block_number = 1
      then sb\<lparr>free_block_bitmap := (free_block_bitmap sb)[nat block_number := 0],
              free_blocks := free_blocks sb + 1\<rparr>
      else sb)"

definition free_block :: "fs_state \<Rightarrow> int \<Rightarrow> fs_state" where
  "free_block s block_number = s\<lparr>superblock := free_block_sb (superblock s) block_number\<rparr>"

text \<open>\<open>allocate_index_block\<close> and \<open>free_index_block\<close> repeat the bodies of
  \<open>allocate_block\<close> and \<open>free_block\<close>.\<close>

definition allocate_index_block :: "fs_state \<Rightarrow> int \<times> fs_state" where
  "allocate_index_block s = allocate_block s"

definition free_index_block :: "fs_state \<Rightarrow> int \<Rightarrow> fs_state" where
  "free_index_block s block_number = free_block s block_number"

text \<open>The invariant of the specification: the counter is the number of free cells.\<close>

definition free_blocks_consistent :: "Superblock \<Rightarrow> bool" where
  "free_blocks_consistent sb \<longleftrightarrow> free_blocks sb = int (count_free_blocks sb)"

section \<open>The clock\<close>

definition time_NULL :: "fs_state \<Rightarrow> int \<times> fs_state" where
  "time_NULL s =
     (clock (host s) (time_calls (host s)),
      s\<lparr>host := (host s)\<lparr>time_calls := Suc (time_calls (host s))\<rparr>\<rparr>)"

section \<open>Permissions and access control lists\<close>

definition set_permissions :: "fs_state \<Rightarrow> int \<Rightarrow> 32 word \<Rightarrow> fs_state" where
  "set_permissions s ino perms =
     (if ino < 0 \<or> ino \<ge> int INODE_TABLE_SIZE then s
      else if (perms AND NOT (PERMISSION_READ OR PERMISSION_WRITE OR PERMISSION_EXECUTE)) \<noteq> 0
      then s
      else s\<lparr>inode_table := (inode_table s)
               [nat ino := (inode_table s ! nat ino)\<lparr>mode := perms\<rparr>]\<rparr>)"

definition get_permissions :: "fs_state \<Rightarrow> int \<Rightarrow> 32 word" where
  "get_permissions s ino =
     (if ino < 0 \<or> ino \<ge> int INODE_TABLE_SIZE then 0 else mode (inode_table s ! nat ino))"

definition add_acl_entry :: "fs_state \<Rightarrow> int \<Rightarrow> int \<Rightarrow> 32 word \<Rightarrow> fs_state" where
  "add_acl_entry s ino uid perms =
     (if ino < 0 \<or> ino \<ge> int INODE_TABLE_SIZE then s
      else let inode = inode_table s ! nat ino in
        if acl_count inode \<ge> MAX_ACL_ENTRIES then s
        else if (perms AND NOT (PERMISSION_READ OR PERMISSION_WRITE OR PERMISSION_EXECUTE)) \<noteq> 0
        then s
        else s\<lparr>inode_table := (inode_table s)
                 [nat ino := inode\<lparr>acl := (acl inode)
                                       [acl_count inode := \<lparr>user_id = uid, permissions = perms\<rparr>],
                                    acl_count := acl_count inode + 1\<rparr>]\<rparr>)"

text \<open>The scan \<open>for (i = 0; i < acl_count; i++) if (acl[i].user_id == user_id) ...\<close>
  of \<open>remove_acl_entry\<close> and \<open>get_acl_permissions\<close>, from index \<open>i\<close> on: the first
  index that holds the user.\<close>

function find_acl_index :: "ACL_Entry list \<Rightarrow> nat \<Rightarrow> int \<Rightarrow> nat \<Rightarrow> nat option" where
  "find_acl_index es cnt uid i =
     (if i < cnt
      then (if user_id (es ! i) = uid then Some i else find_acl_index es cnt uid (Suc i))
      else None)"
  by pat_completeness auto
termination
  by (relation "measure (\<lambda>(es, cnt, uid, i). cnt - i)") auto

declare find_acl_index.simps [simp del]

text \<open>\<open>memmove(&a[i], &a[i + 1], (cnt - i - 1) * sizeof a[0])\<close>: the cells
  \<open>i + 1 .. cnt - 1\<close> move down by one; the cell \<open>cnt - 1\<close> and the cells behind it
  keep their content.\<close>

definition memmove_down :: "'a list \<Rightarrow> nat \<Rightarrow> nat \<Rightarrow> 'a list" where
  "memmove_down a i cnt = take i a @ take (cnt - i - 1) (drop (Suc i) a) @ drop (cnt - 1) a"

definition remove_acl_entry :: "fs_state \<Rightarrow> int \<Rightarrow> int \<Rightarrow> fs_state" where
  "remove_acl_entry s ino uid =
     (if ino < 0 \<or> ino \<ge> int INODE_TABLE_SIZE then s
      else let inode = inode_table s ! nat ino in
        case find_acl_index (acl inode) (acl_count inode) uid 0 of
          None \<Rightarrow> s
        | Some i \<Rightarrow>
            s\<lparr>inode_table := (inode_table s)
               [nat ino := inode\<lparr>acl := memmove_down (acl inode) i (acl_count inode),
                                  acl_count := acl_count inode - 1\<rparr>]\<rparr>)"

definition get_acl_permissions :: "fs_state \<Rightarrow> int \<Rightarrow> int \<Rightarrow> 32 word" where
  "get_acl_permissions s ino uid =
     (if ino < 0 \<or> ino \<ge> int INODE_TABLE_SIZE then 0
      else let inode = inode_table s ! nat ino in
        case find_acl_index (acl inode) (acl_count inode) uid 0 of
          None \<Rightarrow> 0
        | Some i \<Rightarrow> permissions (acl inode ! i))"

definition has_permission :: "fs_state \<Rightarrow> int \<Rightarrow> int \<Rightarrow> 32 word \<Rightarrow> bool" where
  "has_permission s ino uid required_permission =
     (if ino < 0 \<or> ino \<ge> int INODE_TABLE_SIZE then False
      else let inode = inode_table s ! nat ino;
               base = (if uid = owner_id inode then drop_bit 6 (mode inode) AND 7
                       else if uid = group_id inode then drop_bit 3 (mode inode) AND 7
                       else mode inode AND 7);
               perms = base OR get_acl_permissions s ino uid
           in perms AND required_permission = required_permission)"

text \<open>The entries of an inode's list that are in use: the first \<open>acl_count\<close> cells.\<close>

definition acl_entries :: "Inode \<Rightarrow> ACL_Entry list" where
  "acl_entries inode = take (acl_count inode) (acl inode)"

text \<open>Permission resolution in the words of the specification: the base bits of the
  identity class, combined by OR with the entry found for that exact user, must cover
  the request.\<close>

definition class_bits :: "Inode \<Rightarrow> int \<Rightarrow> 32 word" where
  "class_bits inode uid =
     (if uid = owner_id inode then drop_bit 6 (mode inode) AND 7
      else if uid = group_id inode then drop_bit 3 (mode inode) AND 7
      else mode inode AND 7)"

definition acl_override :: "Inode \<Rightarrow> int \<Rightarrow> 32 word" where
  "acl_override inode uid =
     (case find (\<lambda>e. user_id e = uid) (acl_entries inode) of
        None \<Rightarrow> 0
      | Some e \<Rightarrow> permissions e)"

definition resolve_spec :: "Inode \<Rightarrow> int \<Rightarrow> 32 word \<Rightarrow> bool" where
  "resolve_spec inode uid requested =
     ((class_bits inode uid OR acl_override inode uid) AND requested = requested)"

section \<open>Inode table\<close>

text \<open>The scan \<open>for (i = 0; i < INODE_TABLE_SIZE; i++) if (inode_table[i]->_size == 0)\<close>,
  from index \<open>i\<close> on.\<close>

function first_free_inode :: "Inode list \<Rightarrow> nat \<Rightarrow> nat option" where
  "first_free_inode tbl i =
     (if i < INODE_TABLE_SIZE
      then (if i_size (tbl ! i) = 0 then Some i else first_free_inode tbl (Suc i))
      else None)"
  by pat_completeness auto
termination
  by (relation "measure (\<lambda>(tbl, i). INODE_TABLE_SIZE - i)") auto

declare first_free_inode.simps [simp del]

text \<open>The fields that \<open>create_inode\<close> writes into the slot it takes; the cells of
  \<open>acl\<close> are not touched.\<close>

definition init_inode :: "Inode \<Rightarrow> int \<Rightarrow> 32 word \<Rightarrow> int \<Rightarrow> int \<Rightarrow> int \<Rightarrow> Inode" where
  "init_inode inode is_dir md owner grp now =
     inode\<lparr>is_directory := is_dir, i_size := 0, mode := md,
           atime := now, mtime := now, ctime := now,
           owner_id := owner, group_id := grp, acl_count := 0,
           direct_blocks := replicate DIRECT_BLOCKS (-1), index_block := -1\<rparr>"

definition create_inode :: "fs_state \<Rightarrow> int \<Rightarrow> 32 word \<Rightarrow> int \<Rightarrow> int \<Rightarrow> int \<times> fs_state" where
  "create_inode s is_dir md owner grp =
     (if free_inode_count (superblock s) = 0 then (-1, s)
      else case first_free_inode (inode_table s) 0 of
        None \<Rightarrow> (-1, s)
      | Some i \<Rightarrow>
          (case time_NULL s of (now, s1) \<Rightarrow>
            (int i,
             s1\<lparr>inode_table := (inode_table s1)
                  [i := init_inode (inode_table s1 ! i) is_dir md owner grp now],
                superblock := (superblock s1)
                  \<lparr>free_inode_count := free_inode_count (superblock s1) - 1\<rparr>\<rparr>)))"

text \<open>The loop of \<open>delete_file\<close> and \<open>delete_directory\<close> over the direct blocks, from
  index \<open>j\<close> on: a reference other than \<open>-1\<close> goes to \<open>free_block\<close> and is set to
  \<open>-1\<close>.\<close>

function release_direct_blocks :: "Superblock \<Rightarrow> int list \<Rightarrow> nat \<Rightarrow> Superblock \<times> int list" where
  "release_direct_blocks sb db j =
     (if j < DIRECT_BLOCKS
      then (if db ! j \<noteq> -1
            then release_direct_blocks (free_block_sb sb (db ! j)) (db[j := -1]) (Suc j)
            else release_direct_blocks sb db (Suc j))
      else (sb, db))"
  by pat_completeness auto
termination
  by (relation "measure (\<lambda>(sb, db, j). DIRECT_BLOCKS - j)") auto

declare release_direct_blocks.simps [simp del]

text \<open>The block "Free blocks and reset inode" that \<open>delete_file\<close> and
  \<open>delete_directory\<close> run on the inode of the entry they remove (the release of an
  inode of the specification). The inode number comes from a directory entry, and the
  code indexes the table with it unchecked.\<close>

definition release_inode :: "fs_state \<Rightarrow> int \<Rightarrow> fs_state" where
  "release_inode s ino =
     (let inode = inode_table s ! nat ino;
          (sb1, db1) = release_direct_blocks (superblock s) (direct_blocks inode) 0;
          sb2 = (if index_block inode \<noteq> -1 then free_block_sb sb1 (index_block inode) else sb1);
          ib2 = (if index_block inode \<noteq> -1 then -1 else index_block inode);
          (t1, s1) = time_NULL s;
          (t2, s2) = time_NULL s1
      in s2\<lparr>superblock := sb2,
            inode_table := (inode_table s)
              [nat ino := inode\<lparr>direct_blocks := db1, index_block := ib2,
                                 is_directory := 0, i_size := 0, mtime := t1, ctime := t2\<rparr>]\<rparr>)"

section \<open>Journal\<close>

definition operation_to_string :: "JournalOperation option \<Rightarrow> string" where
  "operation_to_string operation =
     (case operation of
        Some CREATE \<Rightarrow> ''CREATED''
      | Some DELETE \<Rightarrow> ''DELETED''
      | Some MODIFY \<Rightarrow> ''MODIFIED''
      | Some RENAME \<Rightarrow> ''RENAMED''
      | Some READ \<Rightarrow> ''READ''
      | Some CHANGE_PERMISSIONS \<Rightarrow> ''CHANGED PERMISSIONS''
      | None \<Rightarrow> ''UNKNOWN'')"

definition string_to_operation :: "string \<Rightarrow> JournalOperation option" where
  "string_to_operation str =
     (if str = ''CREATE'' then Some CREATE
      else if str = ''DELETE'' then Some DELETE
      else if str = ''MODIFY'' then Some MODIFY
      else if str = ''RENAME'' then Some RENAME
      else if str = ''READ'' then Some READ
      else if str = ''CHANGE_PERMISSIONS'' then Some CHANGE_PERMISSIONS
      else None)"

text \<open>\<open>%ld\<close> of \<open>fprintf\<close>: a decimal numeral, with a minus sign for a negative
  value.\<close>

definition digit_char :: "nat \<Rightarrow> char" where
  "digit_char d = ''0123456789'' ! d"

function dec_nat :: "nat \<Rightarrow> string" where
  "dec_nat n = (if n < 10 then [digit_char n] else dec_nat (n div 10) @ [digit_char (n mod 10)])"
  by pat_completeness auto
termination
  by (relation "measure (\<lambda>n. n)") auto

declare dec_nat.simps [simp del]

definition dec_long :: "int \<Rightarrow> string" where
  "dec_long v = (if v < 0 then CHR ''-'' # dec_nat (nat (- v)) else dec_nat (nat v))"

text \<open>The line that \<open>save_journal\<close> prints for an entry:
  \<open>"%ld %s %s %s %s\n"\<close>.\<close>

definition journal_line :: "JournalEntry \<Rightarrow> string" where
  "journal_line e =
     dec_long (je_timestamp e) @ '' '' @ operation_to_string (je_operation e) @ '' ''
     @ je_filename e @ '' '' @ je_new_filename e @ '' '' @ je_data e @ [CHR 0x0A]"

definition save_journal :: "fs_state \<Rightarrow> fs_state" where
  "save_journal s =
     (if journal_log_writable (host s)
      then s\<lparr>host := (host s)\<lparr>journal_log :=
               Some (concat (map journal_line
                      (filter (\<lambda>e. je_timestamp e \<noteq> 0) (take JOURNAL_SIZE (journal s)))))\<rparr>\<rparr>
      else s)"

text \<open>\<open>strncpy(dst, src, n); dst[n] = '\0'\<close> leaves the first \<open>n\<close> characters of
  \<open>src\<close> in \<open>dst\<close>. A \<open>NULL\<close> argument is \<open>None\<close>. \<open>stored_entry\<close> is the content
  that \<open>add_journal_entry\<close> writes into the slot at \<open>journal_index\<close>.\<close>

definition stored_entry ::
  "JournalOperation \<Rightarrow> string \<Rightarrow> string option \<Rightarrow> string option \<Rightarrow> int \<Rightarrow> JournalEntry" where
  "stored_entry operation f new_fname dat now =
     \<lparr>je_operation = Some operation,
      je_filename = take (MAX_FILENAME_LEN - 1) f,
      je_new_filename = (case new_fname of None \<Rightarrow> [] | Some n \<Rightarrow> take (MAX_FILENAME_LEN - 1) n),
      je_data = (case dat of None \<Rightarrow> [] | Some d \<Rightarrow> take (BLOCK_SIZE - 1) d),
      je_timestamp = now\<rparr>"

definition add_journal_entry ::
  "fs_state \<Rightarrow> JournalOperation \<Rightarrow> string option \<Rightarrow> string option \<Rightarrow> string option \<Rightarrow> fs_state" where
  "add_journal_entry s operation fname new_fname dat =
     (case fname of
        None \<Rightarrow> s
      | Some f \<Rightarrow>
          (case time_NULL s of (now, s1) \<Rightarrow>
            save_journal
              (s1\<lparr>journal := (journal s1)
                    [journal_index s1 := stored_entry operation f new_fname dat now],
                  journal_index := (journal_index s1 + 1) mod JOURNAL_SIZE\<rparr>)))"

text \<open>A run of appends, one per request (operation, filename, new filename, data), and
  the entry that the \<open>j\<close>-th request of the run leaves in its slot.\<close>

type_synonym journal_request = "JournalOperation \<times> string \<times> string option \<times> string option"

fun append_all :: "fs_state \<Rightarrow> journal_request list \<Rightarrow> fs_state" where
  "append_all s [] = s"
| "append_all s ((operation, f, new_fname, dat) # rs) =
     append_all (add_journal_entry s operation (Some f) new_fname dat) rs"

definition stamped :: "fs_state \<Rightarrow> journal_request list \<Rightarrow> nat \<Rightarrow> JournalEntry" where
  "stamped s rs j =
     (case rs ! j of (operation, f, new_fname, dat) \<Rightarrow>
        stored_entry operation f new_fname dat (clock (host s) (time_calls (host s) + j)))"

section \<open>Host file operations\<close>

text \<open>\<open>fopen(path, "w")\<close> (and \<open>"w+"\<close>) followed by \<open>fclose\<close>: refused on a denied
  path, and otherwise the file exists and is empty. \<open>remove\<close>, \<open>rename\<close> and
  \<open>_mkdir\<close> likewise change the host only when it accepts the call.\<close>

definition host_fopen_w :: "Host \<Rightarrow> string \<Rightarrow> Host option" where
  "host_fopen_w h p =
     (if p \<in> host_denied h then None else Some (h\<lparr>host_files := (host_files h)(p \<mapsto> [])\<rparr>))"

definition host_remove :: "Host \<Rightarrow> string \<Rightarrow> Host option" where
  "host_remove h p =
     (if p \<in> host_denied h \<or> host_files h p = None then None
      else Some (h\<lparr>host_files := (host_files h)(p := None)\<rparr>))"

definition host_rename :: "Host \<Rightarrow> string \<Rightarrow> string \<Rightarrow> Host option" where
  "host_rename h p q =
     (case host_files h p of
        None \<Rightarrow> None
      | Some c \<Rightarrow>
          if p \<in> host_denied h \<or> q \<in> host_denied h then None
          else Some (h\<lparr>host_files := ((host_files h)(p := None))(q \<mapsto> c)\<rparr>))"

definition host_mkdir :: "Host \<Rightarrow> string \<Rightarrow> Host option" where
  "host_mkdir h p =
     (if p \<in> host_denied h \<or> host_files h p \<noteq> None then None
      else Some (h\<lparr>host_files := (host_files h)(p \<mapsto> [])\<rparr>))"

text \<open>\<open>snprintf(full_path, sizeof(full_path), "%s%s", TEST_FOLDER_PATH, path)\<close> keeps
  at most \<open>MAX_FILENAME_LEN - 1\<close> characters.\<close>

definition full_path :: "fs_state \<Rightarrow> string \<Rightarrow> string" where
  "full_path s path = take (MAX_FILENAME_LEN - 1) (TEST_FOLDER_PATH s @ path)"

definition file_exists :: "fs_state \<Rightarrow> string \<Rightarrow> bool" where
  "file_exists s path \<longleftrightarrow> host_files (host s) (full_path s path) \<noteq> None"

section \<open>File operations\<close>

text \<open>\<open>entries[entry_count] = {path, inode_number}; entry_count++\<close>. The default
  modes \<open>0777\<close> and \<open>0755\<close> of the code are written in hexadecimal, \<open>0x1FF\<close> and
  \<open>0x1ED\<close>.\<close>

definition add_directory_entry :: "fs_state \<Rightarrow> string \<Rightarrow> int \<Rightarrow> fs_state" where
  "add_directory_entry s path ino =
     s\<lparr>root_directory :=
         \<lparr>entries = (entries (root_directory s))
            [entry_count (root_directory s) := \<lparr>de_name = path, inode_number = ino\<rparr>],
          entry_count = Suc (entry_count (root_directory s))\<rparr>\<rparr>"

definition create_file :: "fs_state \<Rightarrow> string \<Rightarrow> int \<Rightarrow> int \<times> fs_state" where
  "create_file s path is_dir =
     (if file_exists s path then (-1, s)
      else case create_inode s is_dir 0x1FF (current_user_id s) (current_group_id s) of
        (ino, s1) \<Rightarrow>
          if ino = -1 then (-1, s1)
          else let s2 = add_directory_entry s1 path ino in
            (case host_fopen_w (host s2) (full_path s2 path) of
               None \<Rightarrow> (-1, s2)
             | Some h' \<Rightarrow> (0, add_journal_entry (s2\<lparr>host := h'\<rparr>) CREATE (Some path) None None)))"

text \<open>The scan of the root directory for a name, from index \<open>i\<close> on.\<close>

function find_entry :: "DirectoryEntry list \<Rightarrow> nat \<Rightarrow> string \<Rightarrow> nat \<Rightarrow> nat option" where
  "find_entry es cnt nm i =
     (if i < cnt
      then (if de_name (es ! i) = nm then Some i else find_entry es cnt nm (Suc i))
      else None)"
  by pat_completeness auto
termination
  by (relation "measure (\<lambda>(es, cnt, nm, i). cnt - i)") auto

declare find_entry.simps [simp del]

definition find_inode_by_filename :: "fs_state \<Rightarrow> string \<Rightarrow> int" where
  "find_inode_by_filename s fname =
     (if fname = [] then -1
      else case find_entry (entries (root_directory s)) (entry_count (root_directory s)) fname 0 of
        None \<Rightarrow> -1
      | Some i \<Rightarrow> inode_number (entries (root_directory s) ! i))"

text \<open>The body of the directory loop of \<open>delete_file\<close> for the entry at index \<open>i\<close>:
  release the inode, then close the gap in the directory.\<close>

definition remove_directory_entry :: "fs_state \<Rightarrow> nat \<Rightarrow> fs_state" where
  "remove_directory_entry s i =
     (let s1 = release_inode s (inode_number (entries (root_directory s) ! i))
      in s1\<lparr>root_directory :=
              \<lparr>entries = memmove_down (entries (root_directory s1)) i (entry_count (root_directory s1)),
               entry_count = entry_count (root_directory s1) - 1\<rparr>\<rparr>)"

definition delete_file :: "fs_state \<Rightarrow> string \<Rightarrow> fs_state" where
  "delete_file s fname =
     (if host_files (host s) (full_path s fname) = None then s
      else case host_remove (host s) (full_path s fname) of
        None \<Rightarrow> s
      | Some h' \<Rightarrow>
          let s1 = s\<lparr>host := h'\<rparr>;
              s2 = (case find_entry (entries (root_directory s1))
                           (entry_count (root_directory s1)) fname 0 of
                      None \<Rightarrow> s1
                    | Some i \<Rightarrow> remove_directory_entry s1 i)
          in add_journal_entry s2 DELETE (Some fname) None None)"

definition rename_file :: "fs_state \<Rightarrow> string \<Rightarrow> string \<Rightarrow> fs_state" where
  "rename_file s old_name new_name =
     (if file_exists s new_name then s
      else case host_rename (host s) (full_path s old_name) (full_path s new_name) of
        None \<Rightarrow> s
      | Some h' \<Rightarrow>
          let s1 = s\<lparr>host := h'\<rparr>;
              d = root_directory s1;
              s2 = (case find_entry (entries d) (entry_count d) old_name 0 of
                      None \<Rightarrow> s1
                    | Some i \<Rightarrow>
                        s1\<lparr>root_directory :=
                             d\<lparr>entries := (entries d)[i := (entries d ! i)\<lparr>de_name := new_name\<rparr>]\<rparr>\<rparr>)
          in add_journal_entry s2 RENAME (Some old_name) (Some new_name) None)"

text \<open>\<open>create_directory\<close> makes the directory on the host first and touches the tables
  only afterwards.\<close>

definition create_directory :: "fs_state \<Rightarrow> string \<Rightarrow> int \<times> fs_state" where
  "create_directory s path =
     (if file_exists s path then (-1, s)
      else case host_mkdir (host s) (full_path s path) of
        None \<Rightarrow> (-1, s)
      | Some h' \<Rightarrow>
          (case create_inode (s\<lparr>host := h'\<rparr>) 1 0x1ED (current_user_id s) (current_group_id s) of
             (ino, s1) \<Rightarrow>
               if ino = -1 then (-1, s1)
               else (0, add_journal_entry (add_directory_entry s1 path ino)
                          CREATE (Some path) None None)))"

section \<open>Reloading and replaying the journal\<close>

text \<open>\<open>fgets(line, sizeof(line), file)\<close> with \<open>char line[1024]\<close> takes at most 1023
  characters and stops behind a newline. \<open>fgets_lines room cur text\<close> cuts the rest of
  the file into the successive results of \<open>fgets\<close>; \<open>cur\<close> is the line being read, in
  reverse, and \<open>room\<close> the number of characters it can still take.\<close>

fun fgets_lines :: "nat \<Rightarrow> string \<Rightarrow> string \<Rightarrow> string list" where
  "fgets_lines room cur [] = (if cur = [] then [] else [rev cur])"
| "fgets_lines room cur (c # cs) =
     (if c = CHR 0x0A \<or> room \<le> 1 then rev (c # cur) # fgets_lines 1023 [] cs
      else fgets_lines (room - 1) (c # cur) cs)"

text \<open>The conversions of \<open>sscanf\<close>. White space is what \<open>isspace\<close> accepts. \<open>%s\<close> skips
  white space and takes the characters up to the next white space; it fails at the end
  of the input. \<open>%ld\<close> skips white space and takes an optional sign and at least one
  decimal digit. The value of \<open>%ld\<close> is not cut to the range of \<open>long\<close>, and a word is
  not cut to the size of the buffer it is stored in.\<close>

definition is_space :: "char \<Rightarrow> bool" where
  "is_space c \<longleftrightarrow> c \<in> set [CHR '' '', CHR 0x09, CHR 0x0A, CHR 0x0B, CHR 0x0C, CHR 0x0D]"

definition is_digit :: "char \<Rightarrow> bool" where
  "is_digit c \<longleftrightarrow> c \<in> set ''0123456789''"

definition digit_value :: "char \<Rightarrow> int" where
  "digit_value c = int (of_char c) - 48"

definition scan_word :: "string \<Rightarrow> (string \<times> string) option" where
  "scan_word cs =
     (let r = dropWhile is_space cs
      in if r = [] then None
         else Some (takeWhile (\<lambda>c. \<not> is_space c) r, dropWhile (\<lambda>c. \<not> is_space c) r))"

definition scan_long :: "string \<Rightarrow> (int \<times> string) option" where
  "scan_long cs =
     (let r = dropWhile is_space cs;
          neg = (r \<noteq> [] \<and> hd r = CHR ''-'');
          r1 = (if r \<noteq> [] \<and> (hd r = CHR ''-'' \<or> hd r = CHR ''+'') then tl r else r);
          ds = takeWhile is_digit r1
      in if ds = [] then None
         else Some ((if neg then -1 else 1) * foldl (\<lambda>a c. 10 * a + digit_value c) 0 ds,
                    dropWhile is_digit r1))"

text \<open>The local variables \<open>timestamp\<close>, \<open>op_str\<close>, \<open>filename\<close>, \<open>new_filename\<close> and
  \<open>data\<close> of the loop in \<open>init_journal\<close>. They are not initialised, and \<open>sscanf\<close>
  assigns only the fields it converts; the others keep the content they had.\<close>

record scan_buffers =
  buf_timestamp :: int
  buf_op_str :: string
  buf_filename :: string
  buf_new_filename :: string
  buf_data :: string

text \<open>\<open>sscanf(line, "%ld %s %s %s %s", ...)\<close>: the number of fields assigned (0 also
  where \<open>sscanf\<close> returns \<open>EOF\<close>) and the buffers afterwards.\<close>

definition sscanf_line :: "string \<Rightarrow> scan_buffers \<Rightarrow> nat \<times> scan_buffers" where
  "sscanf_line line b =
     (case scan_long line of
        None \<Rightarrow> (0, b)
      | Some (ts, r1) \<Rightarrow>
          (case scan_word r1 of
             None \<Rightarrow> (1, b\<lparr>buf_timestamp := ts\<rparr>)
           | Some (w1, r2) \<Rightarrow>
               (case scan_word r2 of
                  None \<Rightarrow> (2, b\<lparr>buf_timestamp := ts, buf_op_str := w1\<rparr>)
                | Some (w2, r3) \<Rightarrow>
                    (case scan_word r3 of
                       None \<Rightarrow> (3, b\<lparr>buf_timestamp := ts, buf_op_str := w1, buf_filename := w2\<rparr>)
                     | Some (w3, r4) \<Rightarrow>
                         (case scan_word r4 of
                            None \<Rightarrow>
                              (4, b\<lparr>buf_timestamp := ts, buf_op_str := w1, buf_filename := w2,
                                     buf_new_filename := w3\<rparr>)
                          | Some (w4, r5) \<Rightarrow>
                              (5, b\<lparr>buf_timestamp := ts, buf_op_str := w1, buf_filename := w2,
                                     buf_new_filename := w3, buf_data := w4\<rparr>))))))"

text \<open>The loop of \<open>init_journal\<close> over the lines that \<open>fgets\<close> returns: a line with at
  least three fields fills the slot at \<open>index\<close>.\<close>

fun init_journal_loop ::
  "string list \<Rightarrow> nat \<Rightarrow> scan_buffers \<Rightarrow> JournalEntry list \<Rightarrow> nat \<times> JournalEntry list" where
  "init_journal_loop [] index b j = (index, j)"
| "init_journal_loop (line # ls) index b j =
     (if index < JOURNAL_SIZE
      then (case sscanf_line line b of
              (n, b') \<Rightarrow>
                if n \<ge> 3
                then init_journal_loop ls (Suc index) b'
                       (j[index := \<lparr>je_operation = string_to_operation (buf_op_str b'),
                                    je_filename = take (MAX_FILENAME_LEN - 1) (buf_filename b'),
                                    je_new_filename = take (MAX_FILENAME_LEN - 1) (buf_new_filename b'),
                                    je_data = take (BLOCK_SIZE - 1) (buf_data b'),
                                    je_timestamp = buf_timestamp b'\<rparr>])
                else init_journal_loop ls index b' j)
      else (index, j))"

text \<open>\<open>init_journal\<close>; the argument \<open>b\<close> is the content of the local buffers before the
  first line is read.\<close>

definition init_journal :: "fs_state \<Rightarrow> scan_buffers \<Rightarrow> fs_state" where
  "init_journal s b =
     (case journal_log (host s) of
        None \<Rightarrow> s\<lparr>journal_index := 0\<rparr>
      | Some text \<Rightarrow>
          (case init_journal_loop (fgets_lines 1023 [] text) 0 b (journal s) of
             (index, j) \<Rightarrow> s\<lparr>journal := j, journal_index := index mod JOURNAL_SIZE\<rparr>))"

text \<open>One pass of the loop of \<open>replay_journal\<close>, for the entry \<open>e\<close> of the slot it is at.
  The \<open>MODIFY\<close> case opens \<open>entry->filename\<close> as it stands, without the test folder in
  front.\<close>

definition replay_entry :: "fs_state \<Rightarrow> JournalEntry \<Rightarrow> fs_state" where
  "replay_entry s e =
     (if je_timestamp e = 0 then s
      else case je_operation e of
        Some CREATE \<Rightarrow> snd (create_file s (je_filename e) 0)
      | Some DELETE \<Rightarrow> delete_file s (je_filename e)
      | Some MODIFY \<Rightarrow>
          (case host_fopen_w (host s) (je_filename e) of
             None \<Rightarrow> s
           | Some h' \<Rightarrow> s\<lparr>host := h'\<lparr>host_files := (host_files h')(je_filename e \<mapsto> je_data e)\<rparr>\<rparr>)
      | Some RENAME \<Rightarrow> rename_file s (je_filename e) (je_new_filename e)
      | Some READ \<Rightarrow> s
      | Some CHANGE_PERMISSIONS \<Rightarrow> s
      | None \<Rightarrow> s)"

function replay_journal_from :: "fs_state \<Rightarrow> nat \<Rightarrow> fs_state" where
  "replay_journal_from s i =
     (if i < JOURNAL_SIZE then replay_journal_from (replay_entry s (journal s ! i)) (Suc i) else s)"
  by pat_completeness auto
termination
  by (relation "measure (\<lambda>(s, i). JOURNAL_SIZE - i)") auto

declare replay_journal_from.simps [simp del]

definition replay_journal :: "fs_state \<Rightarrow> fs_state" where
  "replay_journal s = replay_journal_from s 0"

section \<open>Example states and notions used in the statements\<close>

text \<open>A host with no files, no snapshot, a writable \<open>journal.log\<close> and a running clock,
  and the state after \<open>init_file_system\<close> on it.\<close>

definition example_host :: Host where
  "example_host = \<lparr>host_files = Map.empty, host_denied = {}, journal_log = None,
     journal_log_writable = True, snapshot = None, clock = (\<lambda>k. 1700000000 + int k),
     time_calls = 0\<rparr>"

definition fresh_state :: fs_state where
  "fresh_state = init_file_system (startup_state ''C:/tests/'' example_host)"

text \<open>\<open>n\<close> calls of \<open>create_inode(0, 0777, 11, 10)\<close> in a row.\<close>

definition create_inode_times :: "nat \<Rightarrow> fs_state \<Rightarrow> fs_state" where
  "create_inode_times n s = ((\<lambda>s. snd (create_inode s 0 0x1FF 11 10)) ^^ n) s"

text \<open>The fresh file system after creating one inode with mode \<open>0644\<close> (\<open>0x1A4\<close>),
  owner 11 and group 10, and that state after \<open>add_acl_entry(0, 99, PERMISSION_WRITE)\<close>.\<close>

definition state_0644 :: fs_state where
  "state_0644 = snd (create_inode fresh_state 0 0x1A4 11 10)"

definition state_acl_99 :: fs_state where
  "state_acl_99 = add_acl_entry state_0644 0 99 PERMISSION_WRITE"

text \<open>\<open>JOURNAL_SIZE + 5\<close> requests to append.\<close>

definition wrap_requests :: "journal_request list" where
  "wrap_requests = replicate (JOURNAL_SIZE + 5) (CREATE, ''a.txt'', None, None)"

text \<open>The blocks that an inode references, directly or as its index block, and that
  the bitmap marks as used.\<close>

definition held_used_blocks :: "Superblock \<Rightarrow> Inode \<Rightarrow> nat set" where
  "held_used_blocks sb inode =
     {b \<in> {..<NUM_BLOCKS}. (int b \<in> set (direct_blocks inode) \<or> int b = index_block inode)
                           \<and> free_block_bitmap sb ! b = 1}"

text \<open>The fresh file system on a host that refuses to create \<open>a.txt\<close>; the state
  after \<open>create_file("a.txt", 0)\<close> on the fresh file system; and that state after one
  block has been allocated and stored as the first direct block of inode 0.\<close>

definition denied_state :: fs_state where
  "denied_state = fresh_state\<lparr>host := (host fresh_state)\<lparr>host_denied := {''C:/tests/a.txt''}\<rparr>\<rparr>"

definition created_state :: fs_state where
  "created_state = snd (create_file fresh_state ''a.txt'' 0)"

definition held_state :: fs_state where
  "held_state =
     (case allocate_block created_state of
        (b, s) \<Rightarrow> s\<lparr>inode_table := (inode_table s)
                      [0 := (inode_table s ! 0)\<lparr>direct_blocks := (direct_blocks (inode_table s ! 0))[0 := b]\<rparr>]\<rparr>)"

text \<open>The program started again on the host that \<open>created_state\<close> leaves behind, with
  the files \<open>files\<close> in place of the host's files.\<close>

definition restarted_state :: "(string \<rightharpoonup> string) \<Rightarrow> fs_state" where
  "restarted_state files =
     init_file_system (startup_state ''C:/tests/'' ((host created_state)\<lparr>host_files := files\<rparr>))"

section \<open>Lemmas about lists and division\<close>

lemma filter_replicate_all:
  "P x \<Longrightarrow> filter P (replicate n x) = replicate n x"
  by (induction n) auto

lemma filter_replicate_none:
  "\<not> P x \<Longrightarrow> filter P (replicate n x) = []"
  by (induction n) auto

lemma length_filter_update_out:
  "i < length xs \<Longrightarrow> P (xs ! i) \<Longrightarrow> \<not> P v \<Longrightarrow>
     Suc (length (filter P (xs[i := v]))) = length (filter P xs)"
proof (induction xs arbitrary: i)
  case Nil
  then show ?case by simp
next
  case (Cons x xs)
  then show ?case by (cases i) auto
qed

lemma length_filter_update_in:
  "i < length xs \<Longrightarrow> \<not> P (xs ! i) \<Longrightarrow> P v \<Longrightarrow>
     length (filter P (xs[i := v])) = Suc (length (filter P xs))"
proof (induction xs arbitrary: i)
  case Nil
  then show ?case by simp
next
  case (Cons x xs)
  then show ?case by (cases i) auto
qed

lemma take_Suc_update:
  "n < length xs \<Longrightarrow> take (Suc n) (xs[n := v]) = take n xs @ [v]"
  by (simp add: take_Suc_conv_app_nth)

lemma replicate_update_0: "0 < n \<Longrightarrow> (replicate n z)[0 := e] = e # replicate (n - 1) z"
  by (cases n) simp_all

lemma find_append_miss:
  "\<forall>e \<in> set xs. \<not> P e \<Longrightarrow> find P (xs @ ys) = find P ys"
  by (induction xs) auto

lemma find_miss:
  "\<forall>e \<in> set xs. \<not> P e \<Longrightarrow> find P xs = None"
  by (induction xs) auto

lemma distinct_map_remove_nth:
  assumes "distinct (map f xs)" "i < length xs"
  shows "distinct (map f (take i xs @ drop (Suc i) xs))"
proof -
  from assms(2) have "xs = take i xs @ xs ! i # drop (Suc i) xs"
    by (rule id_take_nth_drop)
  then have "distinct (map f (take i xs @ xs ! i # drop (Suc i) xs))"
    using assms(1) by simp
  then show ?thesis by auto
qed

lemma take_memmove_down:
  assumes "i < cnt" "cnt \<le> length a"
  shows "take (cnt - 1) (memmove_down a i cnt) = take i (take cnt a) @ drop (Suc i) (take cnt a)"
proof -
  have "length (take i a @ take (cnt - i - 1) (drop (Suc i) a)) = cnt - 1"
    using assms by simp
  then have "take (cnt - 1) (memmove_down a i cnt) = take i a @ take (cnt - i - 1) (drop (Suc i) a)"
    unfolding memmove_down_def
    by (metis append.assoc append_eq_conv_conj)
  moreover have "take i (take cnt a) = take i a" using assms by (simp add: min_def)
  moreover have "drop (Suc i) (take cnt a) = take (cnt - i - 1) (drop (Suc i) a)"
    by (simp add: drop_take)
  ultimately show ?thesis by simp
qed

lemma div_pred_nat:
  fixes m N :: nat
  assumes "m mod N \<noteq> 0"
  shows "(m - 1) div N = m div N"
proof (cases "N = 0")
  case True
  then show ?thesis by simp
next
  case False
  have "m = (m div N) * N + m mod N" by simp
  with assms have "m - 1 = (m div N) * N + (m mod N - 1)" by linarith
  then have "(m - 1) div N = ((m div N) * N + (m mod N - 1)) div N" by simp
  also have "\<dots> = m div N + (m mod N - 1) div N" using False by simp
  also have "(m mod N - 1) div N = 0"
    using False by (simp add: less_imp_diff_less)
  finally show ?thesis by simp
qed

section \<open>Facts about the example states\<close>

lemma fresh_state_inode_table: "inode_table fresh_state = replicate INODE_TABLE_SIZE zero_inode"
  by (simp add: fresh_state_def init_file_system_def load_file_system_state_def
      startup_state_def example_host_def)

lemma fresh_state_free_inode_count: "free_inode_count (superblock fresh_state) = int INODE_TABLE_SIZE"
  by (simp add: fresh_state_def init_file_system_def load_file_system_state_def
      startup_state_def example_host_def)

lemma fresh_state_journal:
  "journal fresh_state = replicate JOURNAL_SIZE zero_journal_entry"
  "journal_index fresh_state = 0"
  "host fresh_state = example_host"
  "TEST_FOLDER_PATH fresh_state = ''C:/tests/''"
  "current_user_id fresh_state = 11"
  "current_group_id fresh_state = 10"
  "entry_count (root_directory fresh_state) = 0"
  "entries (root_directory fresh_state) = replicate MAX_FILES zero_directory_entry"
  by (simp_all add: fresh_state_def init_file_system_def load_file_system_state_def
      startup_state_def example_host_def)

lemma fresh_state_bitmap:
  "free_block_bitmap (superblock fresh_state) = replicate NUM_BLOCKS 0"
  "free_blocks (superblock fresh_state) = 1023"
  by (simp_all add: fresh_state_def init_file_system_def load_file_system_state_def
      startup_state_def example_host_def NUM_BLOCKS_def)

lemma full_path_fresh: "full_path fresh_state ''a.txt'' = ''C:/tests/a.txt''"
  by (simp add: full_path_def fresh_state_journal MAX_FILENAME_LEN_def)

lemma dec_long_example: "dec_long 1700000000 = ''1700000000''"
  by (simp add: dec_long_def dec_nat.simps digit_char_def)

lemma dec_long_example_1: "dec_long 1700000001 = ''1700000001''"
  by (simp add: dec_long_def dec_nat.simps digit_char_def)

section \<open>Block allocator: lemmas and claim C1\<close>

lemma first_free_block_Some:
  "first_free_block bm i = Some k \<Longrightarrow>
     i \<le> k \<and> k < NUM_BLOCKS \<and> bm ! k = 0 \<and> (\<forall>j. i \<le> j \<and> j < k \<longrightarrow> bm ! j \<noteq> 0)"
proof (induction bm i rule: first_free_block.induct)
  case (1 bm i)
  show ?case
  proof (cases "i < NUM_BLOCKS")
    case False
    with "1.prems" show ?thesis by (simp add: first_free_block.simps [of bm i])
  next
    case inrange: True
    show ?thesis
    proof (cases "bm ! i = 0")
      case True
      with inrange "1.prems" show ?thesis by (simp add: first_free_block.simps [of bm i])
    next
      case False
      with inrange "1.prems" have rec: "first_free_block bm (Suc i) = Some k"
        by (simp add: first_free_block.simps [of bm i])
      from "1.IH" [OF inrange False rec]
      have ih: "Suc i \<le> k" "k < NUM_BLOCKS" "bm ! k = 0"
        "\<forall>j. Suc i \<le> j \<and> j < k \<longrightarrow> bm ! j \<noteq> 0" by auto
      have "\<forall>j. i \<le> j \<and> j < k \<longrightarrow> bm ! j \<noteq> 0"
      proof (intro allI impI)
        fix j assume j: "i \<le> j \<and> j < k"
        show "bm ! j \<noteq> 0"
        proof (cases "j = i")
          case True with False show ?thesis by simp
        next
          case False with j ih(4) show ?thesis by auto
        qed
      qed
      with ih show ?thesis by auto
    qed
  qed
qed

lemma first_free_block_None:
  "first_free_block bm i = None \<Longrightarrow> i \<le> j \<Longrightarrow> j < NUM_BLOCKS \<Longrightarrow> bm ! j \<noteq> 0"
proof (induction bm i rule: first_free_block.induct)
  case (1 bm i)
  from "1.prems" have inrange: "i < NUM_BLOCKS" by simp
  from "1.prems"(1) inrange have nz: "bm ! i \<noteq> 0"
    by (auto simp: first_free_block.simps [of bm i] split: if_splits)
  from "1.prems"(1) inrange nz have rec: "first_free_block bm (Suc i) = None"
    by (simp add: first_free_block.simps [of bm i])
  show ?case
  proof (cases "j = i")
    case True with nz show ?thesis by simp
  next
    case False
    with "1.prems" have "Suc i \<le> j" by simp
    from "1.IH" [OF inrange nz rec this "1.prems"(3)] show ?thesis .
  qed
qed

lemma allocate_block_consistent:
  assumes len: "length (free_block_bitmap (superblock s)) = NUM_BLOCKS"
    and inv: "free_blocks_consistent (superblock s)"
  shows "free_blocks_consistent (superblock (snd (allocate_block s)))"
proof (cases "first_free_block (free_block_bitmap (superblock s)) 0")
  case None
  with inv show ?thesis by (simp add: allocate_block_def)
next
  case (Some k)
  let ?bm = "free_block_bitmap (superblock s)"
  from first_free_block_Some [OF Some] have k: "k < NUM_BLOCKS" "?bm ! k = 0" by auto
  from k len have "Suc (length (filter (\<lambda>b. b = 0) (?bm[k := 1]))) = length (filter (\<lambda>b. b = 0) ?bm)"
    by (intro length_filter_update_out) auto
  with Some inv len show ?thesis
    by (simp add: allocate_block_def free_blocks_consistent_def count_free_blocks_def)
qed

lemma free_block_consistent:
  assumes len: "length (free_block_bitmap (superblock s)) = NUM_BLOCKS"
    and inv: "free_blocks_consistent (superblock s)"
  shows "free_blocks_consistent (superblock (free_block s b))"
proof (cases "0 \<le> b \<and> b < int NUM_BLOCKS \<and> free_block_bitmap (superblock s) ! nat b = 1")
  case False
  with inv show ?thesis by (auto simp: free_block_def free_block_sb_def)
next
  case True
  let ?bm = "free_block_bitmap (superblock s)"
  from True len have "length (filter (\<lambda>b. b = 0) (?bm[nat b := 0])) = Suc (length (filter (\<lambda>b. b = 0) ?bm))"
    by (intro length_filter_update_in) auto
  with True inv len show ?thesis
    by (simp add: free_block_def free_block_sb_def free_blocks_consistent_def count_free_blocks_def)
qed

lemma allocate_block_was_free:
  "allocate_block s = (r, s') \<Longrightarrow> r \<noteq> -1 \<Longrightarrow>
     0 \<le> r \<and> r < int NUM_BLOCKS \<and> free_block_bitmap (superblock s) ! nat r = 0"
  by (auto simp: allocate_block_def split: option.splits dest: first_free_block_Some)

lemma free_block_sb_unset: "free_block_sb sb (-1) = sb"
  by (simp add: free_block_sb_def)

lemma free_block_sb_cases:
  "free_block_sb sb b =
     (if 0 \<le> b \<and> b < int NUM_BLOCKS \<and> free_block_bitmap sb ! nat b = 1
      then sb\<lparr>free_block_bitmap := (free_block_bitmap sb)[nat b := 0],
              free_blocks := free_blocks sb + 1\<rparr>
      else sb)"
  by (auto simp: free_block_sb_def)

lemma foldl_free_block_sb_unset:
  "foldl free_block_sb sb (replicate n (-1)) = sb"
  by (induction n) (simp_all add: free_block_sb_unset)

lemma foldl_free_block_sb_inode_count:
  "free_inode_count (foldl free_block_sb sb bs) = free_inode_count sb"
  by (induction bs arbitrary: sb) (simp_all add: free_block_sb_def)

lemma foldl_free_block_sb:
  "length (free_block_bitmap sb) = NUM_BLOCKS \<Longrightarrow>
     length (free_block_bitmap (foldl free_block_sb sb bs)) = NUM_BLOCKS
     \<and> (\<forall>x<NUM_BLOCKS. free_block_bitmap (foldl free_block_sb sb bs) ! x =
           (if int x \<in> set bs \<and> free_block_bitmap sb ! x = 1 then 0 else free_block_bitmap sb ! x))
     \<and> free_blocks (foldl free_block_sb sb bs) =
         free_blocks sb + int (card {x. x < NUM_BLOCKS \<and> int x \<in> set bs \<and> free_block_bitmap sb ! x = 1})"
proof (induction bs arbitrary: sb)
  case Nil
  then show ?case by simp
next
  case (Cons b bs)
  let ?bm = "free_block_bitmap sb"
  let ?F = "{x. x < NUM_BLOCKS \<and> int x \<in> set (b # bs) \<and> ?bm ! x = 1}"
  show ?case
  proof (cases "0 \<le> b \<and> b < int NUM_BLOCKS \<and> ?bm ! nat b = 1")
    case False
    then have same: "free_block_sb sb b = sb" by (auto simp: free_block_sb_def)
    have "{x. x < NUM_BLOCKS \<and> int x \<in> set bs \<and> ?bm ! x = 1} = ?F"
      using False by auto
    moreover have "(int x \<in> set bs \<and> ?bm ! x = 1) = (int x \<in> set (b # bs) \<and> ?bm ! x = 1)"
      if "x < NUM_BLOCKS" for x
      using False that by auto
    ultimately show ?thesis
      using Cons.IH [OF Cons.prems] by (simp add: same)
  next
    case True
    let ?sb1 = "sb\<lparr>free_block_bitmap := ?bm[nat b := 0], free_blocks := free_blocks sb + 1\<rparr>"
    let ?F1 = "{x. x < NUM_BLOCKS \<and> int x \<in> set bs \<and> free_block_bitmap ?sb1 ! x = 1}"
    from True have step: "free_block_sb sb b = ?sb1" by (auto simp: free_block_sb_def)
    from Cons.prems have len1: "length (free_block_bitmap ?sb1) = NUM_BLOCKS" by simp
    note ih = Cons.IH [OF len1]
    from True Cons.prems have nb: "nat b < length ?bm" by linarith
    have F1: "?F1 = {x. x < NUM_BLOCKS \<and> int x \<in> set bs \<and> x \<noteq> nat b \<and> ?bm ! x = 1}"
      using nb by (auto simp: nth_list_update)
    have F: "?F = insert (nat b) ?F1"
      unfolding F1 using True by auto
    have fin: "finite ?F1" by simp
    have notin: "nat b \<notin> ?F1" unfolding F1 by simp
    have card: "card ?F = Suc (card ?F1)"
      unfolding F using fin notin by (rule card_insert_disjoint)
    have cells: "free_block_bitmap (foldl free_block_sb ?sb1 bs) ! x =
           (if int x \<in> set (b # bs) \<and> ?bm ! x = 1 then 0 else ?bm ! x)"
      if x: "x < NUM_BLOCKS" for x
    proof (cases "x = nat b")
      case xb: True
      with ih x nb True show ?thesis by simp
    next
      case xb: False
      then have "int x \<noteq> b" by auto
      with ih x nb xb show ?thesis by (simp add: nth_list_update)
    qed
    from ih have "free_blocks (foldl free_block_sb ?sb1 bs) = free_blocks sb + 1 + int (card ?F1)"
      by simp
    with card have "free_blocks (foldl free_block_sb ?sb1 bs) = free_blocks sb + int (card ?F)"
      by simp
    with ih cells show ?thesis by (simp add: step)
  qed
qed

text \<open>
  C1 (the counter equals the number of free bitmap cells in every reachable state,
  the state right after initialisation included). The code does not establish the
  equality: with no snapshot on the host, \<open>init_file_system\<close> clears all
  \<open>NUM_BLOCKS\<close> bitmap cells and sets \<open>free_blocks\<close> to \<open>NUM_BLOCKS - 1\<close>, so the
  counter is 1023 while 1024 cells are free and none is used.
\<close>

theorem init_file_system_free_blocks_off_by_one:
  "free_blocks (superblock (init_file_system (startup_state folder (h\<lparr>snapshot := None\<rparr>)))) = 1023
   \<and> count_free_blocks (superblock (init_file_system (startup_state folder (h\<lparr>snapshot := None\<rparr>)))) = 1024
   \<and> count_used_blocks (superblock (init_file_system (startup_state folder (h\<lparr>snapshot := None\<rparr>)))) = 0
   \<and> \<not> free_blocks_consistent (superblock (init_file_system (startup_state folder (h\<lparr>snapshot := None\<rparr>))))"
  by (simp add: init_file_system_def load_file_system_state_def startup_state_def
      count_free_blocks_def count_used_blocks_def free_blocks_consistent_def
      filter_replicate_all filter_replicate_none NUM_BLOCKS_def)

section \<open>Inode table: lemmas and claims C5, C6\<close>

lemma first_free_inode_Some:
  "first_free_inode tbl i = Some k \<Longrightarrow>
     i \<le> k \<and> k < INODE_TABLE_SIZE \<and> i_size (tbl ! k) = 0
     \<and> (\<forall>j. i \<le> j \<and> j < k \<longrightarrow> i_size (tbl ! j) \<noteq> 0)"
proof (induction tbl i rule: first_free_inode.induct)
  case (1 tbl i)
  show ?case
  proof (cases "i < INODE_TABLE_SIZE")
    case False
    with "1.prems" show ?thesis by (simp add: first_free_inode.simps [of tbl i])
  next
    case inrange: True
    show ?thesis
    proof (cases "i_size (tbl ! i) = 0")
      case True
      with inrange "1.prems" show ?thesis by (simp add: first_free_inode.simps [of tbl i])
    next
      case False
      with inrange "1.prems" have rec: "first_free_inode tbl (Suc i) = Some k"
        by (simp add: first_free_inode.simps [of tbl i])
      from "1.IH" [OF inrange False rec]
      have ih: "Suc i \<le> k" "k < INODE_TABLE_SIZE" "i_size (tbl ! k) = 0"
        "\<forall>j. Suc i \<le> j \<and> j < k \<longrightarrow> i_size (tbl ! j) \<noteq> 0" by auto
      have "i_size (tbl ! j) \<noteq> 0" if "i \<le> j \<and> j < k" for j
        using that ih(4) False by (cases "j = i") auto
      with ih show ?thesis by auto
    qed
  qed
qed

lemma first_free_inode_None:
  "first_free_inode tbl i = None \<Longrightarrow> i \<le> j \<Longrightarrow> j < INODE_TABLE_SIZE \<Longrightarrow> i_size (tbl ! j) \<noteq> 0"
proof (induction tbl i rule: first_free_inode.induct)
  case (1 tbl i)
  from "1.prems" have inrange: "i < INODE_TABLE_SIZE" by simp
  from "1.prems"(1) inrange have nz: "i_size (tbl ! i) \<noteq> 0"
    by (auto simp: first_free_inode.simps [of tbl i] split: if_splits)
  from "1.prems"(1) inrange nz have rec: "first_free_inode tbl (Suc i) = None"
    by (simp add: first_free_inode.simps [of tbl i])
  show ?case
  proof (cases "j = i")
    case True with nz show ?thesis by simp
  next
    case False
    with "1.prems" have "Suc i \<le> j" by simp
    from "1.IH" [OF inrange nz rec this "1.prems"(3)] show ?thesis .
  qed
qed

lemma first_free_inode_first:
  assumes "k < INODE_TABLE_SIZE" "i_size (tbl ! k) = 0" "\<forall>j<k. i_size (tbl ! j) \<noteq> 0"
  shows "first_free_inode tbl 0 = Some k"
proof (cases "first_free_inode tbl 0")
  case None
  from first_free_inode_None [OF None _ assms(1)] assms(2) show ?thesis by simp
next
  case (Some k')
  from first_free_inode_Some [OF Some]
  have k': "k' < INODE_TABLE_SIZE" "i_size (tbl ! k') = 0" "\<forall>j. j < k' \<longrightarrow> i_size (tbl ! j) \<noteq> 0"
    by auto
  from k'(2) assms(3) have "\<not> k' < k" by auto
  moreover from assms(2) k'(3) have "\<not> k < k'" by auto
  ultimately show ?thesis using Some by simp
qed

lemma first_free_inode_full:
  assumes "\<forall>j<INODE_TABLE_SIZE. i_size (tbl ! j) \<noteq> 0"
  shows "first_free_inode tbl 0 = None"
proof (cases "first_free_inode tbl 0")
  case None then show ?thesis .
next
  case (Some k)
  from first_free_inode_Some [OF Some] assms show ?thesis by auto
qed

lemma create_inode_fails:
  "free_inode_count (superblock s) = 0 \<or> (\<forall>j<INODE_TABLE_SIZE. i_size (inode_table s ! j) \<noteq> 0)
     \<Longrightarrow> create_inode s d m ow g = (-1, s)"
  by (auto simp: create_inode_def first_free_inode_full)

lemma create_inode_takes:
  assumes "free_inode_count (superblock s) \<noteq> 0" "first_free_inode (inode_table s) 0 = Some k"
  shows "create_inode s d m ow g =
           (int k,
            s\<lparr>host := (host s)\<lparr>time_calls := Suc (time_calls (host s))\<rparr>,
              inode_table := (inode_table s)
                [k := init_inode (inode_table s ! k) d m ow g (clock (host s) (time_calls (host s)))],
              superblock := (superblock s)\<lparr>free_inode_count := free_inode_count (superblock s) - 1\<rparr>\<rparr>)"
  using assms by (simp add: create_inode_def time_NULL_def)

lemma create_inode_slot:
  assumes "free_inode_count (superblock s) \<noteq> 0" "k < INODE_TABLE_SIZE"
    "i_size (inode_table s ! k) = 0" "\<forall>j<k. i_size (inode_table s ! j) \<noteq> 0"
  shows "create_inode s d m ow g =
           (int k,
            s\<lparr>host := (host s)\<lparr>time_calls := Suc (time_calls (host s))\<rparr>,
              inode_table := (inode_table s)
                [k := init_inode (inode_table s ! k) d m ow g (clock (host s) (time_calls (host s)))],
              superblock := (superblock s)\<lparr>free_inode_count := free_inode_count (superblock s) - 1\<rparr>\<rparr>)"
  by (rule create_inode_takes [OF assms(1) first_free_inode_first [OF assms(2-4)]])

lemma release_direct_blocks_eq:
  "length db = DIRECT_BLOCKS \<Longrightarrow> j \<le> DIRECT_BLOCKS \<Longrightarrow>
     release_direct_blocks sb db j =
       (foldl free_block_sb sb (drop j db), take j db @ replicate (DIRECT_BLOCKS - j) (-1))"
proof (induction sb db j rule: release_direct_blocks.induct)
  case (1 sb db j)
  show ?case
  proof (cases "j < DIRECT_BLOCKS")
    case False
    then have "release_direct_blocks sb db j = (sb, db)"
      by (subst release_direct_blocks.simps) simp
    with False "1.prems" show ?thesis by simp
  next
    case True
    with "1.prems" have jl: "j < length db" by simp
    have rep: "replicate (DIRECT_BLOCKS - j) (-1 :: int) = -1 # replicate (DIRECT_BLOCKS - Suc j) (-1)"
      using True by (simp add: Suc_diff_Suc replicate_Suc [symmetric] del: replicate_Suc)
    have dr: "drop j db = db ! j # drop (Suc j) db"
      using jl by (simp add: Cons_nth_drop_Suc)
    show ?thesis
    proof (cases "db ! j = -1")
      case unset: True
      from True have sj: "Suc j \<le> DIRECT_BLOCKS" by simp
      from unset have ne: "\<not> db ! j \<noteq> -1" by simp
      from "1.IH"(2) [OF True ne "1.prems"(1) sj]
      have "release_direct_blocks sb db (Suc j) =
              (foldl free_block_sb sb (drop (Suc j) db),
               take (Suc j) db @ replicate (DIRECT_BLOCKS - Suc j) (-1))" .
      with True unset jl show ?thesis
        by (simp add: release_direct_blocks.simps [of sb db j] dr rep free_block_sb_unset
            take_Suc_conv_app_nth)
    next
      case set: False
      from True have sj: "Suc j \<le> DIRECT_BLOCKS" by simp
      from "1.prems" have len': "length (db[j := -1]) = DIRECT_BLOCKS" by simp
      from "1.IH"(1) [OF True set len' sj]
      have "release_direct_blocks (free_block_sb sb (db ! j)) (db[j := -1]) (Suc j) =
              (foldl free_block_sb (free_block_sb sb (db ! j)) (drop (Suc j) (db[j := -1])),
               take (Suc j) (db[j := -1]) @ replicate (DIRECT_BLOCKS - Suc j) (-1))" .
      with True set jl show ?thesis
        by (simp add: release_direct_blocks.simps [of sb db j] dr rep take_Suc_update)
    qed
  qed
qed

lemma release_inode_eq:
  assumes "length (direct_blocks (inode_table s ! nat ino)) = DIRECT_BLOCKS"
  shows "release_inode s ino =
           s\<lparr>host := (host s)\<lparr>time_calls := Suc (Suc (time_calls (host s)))\<rparr>,
             superblock := foldl free_block_sb (superblock s)
                 (direct_blocks (inode_table s ! nat ino) @ [index_block (inode_table s ! nat ino)]),
             inode_table := (inode_table s)
               [nat ino := (inode_table s ! nat ino)
                  \<lparr>direct_blocks := replicate DIRECT_BLOCKS (-1), index_block := -1,
                   is_directory := 0, i_size := 0,
                   mtime := clock (host s) (time_calls (host s)),
                   ctime := clock (host s) (Suc (time_calls (host s)))\<rparr>]\<rparr>"
  using assms
  by (simp add: release_inode_def release_direct_blocks_eq time_NULL_def Let_def
      free_block_sb_unset)

lemma empty_table_scenario:
  assumes tbl: "inode_table s = replicate INODE_TABLE_SIZE zero_inode"
    and cnt: "free_inode_count (superblock s) = int INODE_TABLE_SIZE"
  shows "fst (create_inode s 0 0x1FF 11 10) = 0"
    and "i_size (inode_table (release_inode (snd (create_inode s 0 0x1FF 11 10)) 0) ! 0) = 0"
    and "direct_blocks (inode_table (release_inode (snd (create_inode s 0 0x1FF 11 10)) 0) ! 0)
           = replicate DIRECT_BLOCKS (-1)"
    and "free_block_bitmap (superblock (release_inode (snd (create_inode s 0 0x1FF 11 10)) 0))
           = free_block_bitmap (superblock s)"
    and "fst (create_inode (release_inode (snd (create_inode s 0 0x1FF 11 10)) 0) 0 0x1FF 11 10) = 0"
proof -
  let ?now = "clock (host s) (time_calls (host s))"
  let ?s1 = "snd (create_inode s 0 0x1FF 11 10)"
  let ?s2 = "release_inode ?s1 0"
  have n: "0 < INODE_TABLE_SIZE" by (simp add: INODE_TABLE_SIZE_def)
  have c0: "free_inode_count (superblock s) \<noteq> 0" using cnt by (simp add: INODE_TABLE_SIZE_def)
  have z: "i_size (inode_table s ! 0) = 0" using tbl n by (simp add: zero_inode_def)
  have first: "create_inode s 0 0x1FF 11 10 =
     (int 0, s\<lparr>host := (host s)\<lparr>time_calls := Suc (time_calls (host s))\<rparr>,
        inode_table := (inode_table s)[0 := init_inode (inode_table s ! 0) 0 0x1FF 11 10 ?now],
        superblock := (superblock s)\<lparr>free_inode_count := free_inode_count (superblock s) - 1\<rparr>\<rparr>)"
    by (rule create_inode_slot [OF c0 n z]) simp
  then show "fst (create_inode s 0 0x1FF 11 10) = 0" by simp
  from first tbl n have i1: "inode_table ?s1 ! 0 = init_inode zero_inode 0 0x1FF 11 10 ?now"
    by simp
  then have db1: "length (direct_blocks (inode_table ?s1 ! nat 0)) = DIRECT_BLOCKS"
    by (simp add: init_inode_def)
  note rel = release_inode_eq [OF db1]
  from first tbl n have len1: "0 < length (inode_table ?s1)" by simp
  from len1 show z2: "i_size (inode_table ?s2 ! 0) = 0" by (simp add: rel)
  from len1 show "direct_blocks (inode_table ?s2 ! 0) = replicate DIRECT_BLOCKS (-1)"
    by (simp add: rel)
  have "superblock ?s2 = superblock ?s1"
    by (simp add: rel i1 init_inode_def foldl_free_block_sb_unset free_block_sb_unset)
  with first show "free_block_bitmap (superblock ?s2) = free_block_bitmap (superblock s)"
    by simp
  have "free_inode_count (superblock ?s2) = free_inode_count (superblock ?s1)"
    by (simp add: rel foldl_free_block_sb_inode_count free_block_sb_def)
  moreover from first cnt have "free_inode_count (superblock ?s1) = 127"
    by (simp add: INODE_TABLE_SIZE_def)
  ultimately have "free_inode_count (superblock ?s2) \<noteq> 0" by simp
  from create_inode_slot [OF this n z2] show "fst (create_inode ?s2 0 0x1FF 11 10) = 0"
    by simp
qed

lemma fresh_state_create:
  "create_inode fresh_state d m ow g =
     (0, fresh_state\<lparr>host := (host fresh_state)\<lparr>time_calls := 1\<rparr>,
          inode_table := (replicate INODE_TABLE_SIZE zero_inode)
                [0 := init_inode zero_inode d m ow g 1700000000],
          superblock := (superblock fresh_state)\<lparr>free_inode_count := 127\<rparr>\<rparr>)"
proof -
  have n: "0 < INODE_TABLE_SIZE" by (simp add: INODE_TABLE_SIZE_def)
  have c0: "free_inode_count (superblock fresh_state) \<noteq> 0"
    by (simp add: fresh_state_free_inode_count INODE_TABLE_SIZE_def)
  have z: "i_size (inode_table fresh_state ! 0) = 0"
    using n by (simp add: fresh_state_inode_table zero_inode_def)
  have h: "clock (host fresh_state) = (\<lambda>k. 1700000000 + int k)"
    "time_calls (host fresh_state) = 0"
    by (simp_all add: fresh_state_def init_file_system_def load_file_system_state_def
        startup_state_def example_host_def)
  have "\<forall>j<0. i_size (inode_table fresh_state ! j) \<noteq> 0" by simp
  from create_inode_slot [OF c0 n z this, of d m ow g] n show ?thesis
    by (simp add: h fresh_state_inode_table fresh_state_free_inode_count INODE_TABLE_SIZE_def)
qed

lemma init_inode_twice:
  "init_inode (init_inode x d1 m1 o1 g1 t1) d2 m2 o2 g2 t2 = init_inode x d2 m2 o2 g2 t2"
  by (simp add: init_inode_def)

lemma create_inode_two_calls:
  assumes c: "free_inode_count (superblock s) \<noteq> 0" and k: "k < INODE_TABLE_SIZE"
    and len: "length (inode_table s) = INODE_TABLE_SIZE"
    and z: "i_size (inode_table s ! k) = 0" and first: "\<forall>j<k. i_size (inode_table s ! j) \<noteq> 0"
  shows "fst (create_inode s d1 m1 o1 g1) = int k"
    and "i_size (inode_table (snd (create_inode s d1 m1 o1 g1)) ! k) = 0"
    and "free_inode_count (superblock (snd (create_inode s d1 m1 o1 g1)))
           = free_inode_count (superblock s) - 1"
    and "free_inode_count (superblock s) \<noteq> 1 \<Longrightarrow>
           fst (create_inode (snd (create_inode s d1 m1 o1 g1)) d2 m2 o2 g2) = int k
           \<and> inode_table (snd (create_inode (snd (create_inode s d1 m1 o1 g1)) d2 m2 o2 g2)) ! k
               = init_inode (inode_table s ! k) d2 m2 o2 g2 (clock (host s) (Suc (time_calls (host s))))
           \<and> free_inode_count (superblock (snd (create_inode (snd (create_inode s d1 m1 o1 g1)) d2 m2 o2 g2)))
               = free_inode_count (superblock s) - 2"
    and "free_inode_count (superblock s) = 1 \<Longrightarrow>
           create_inode (snd (create_inode s d1 m1 o1 g1)) d2 m2 o2 g2
             = (-1, snd (create_inode s d1 m1 o1 g1))"
proof -
  let ?s1 = "snd (create_inode s d1 m1 o1 g1)"
  note eq1 = create_inode_slot [OF c k z first, of d1 m1 o1 g1]
  from len k have kl: "k < length (inode_table s)" by simp
  show "fst (create_inode s d1 m1 o1 g1) = int k" by (simp add: eq1)
  show z1: "i_size (inode_table ?s1 ! k) = 0" using kl by (simp add: eq1 init_inode_def)
  show c1: "free_inode_count (superblock ?s1) = free_inode_count (superblock s) - 1"
    by (simp add: eq1)
  have first1: "\<forall>j<k. i_size (inode_table ?s1 ! j) \<noteq> 0" using first by (simp add: eq1)
  have tbl1: "inode_table ?s1 ! k
      = init_inode (inode_table s ! k) d1 m1 o1 g1 (clock (host s) (time_calls (host s)))"
    using kl by (simp add: eq1)
  have h1: "clock (host ?s1) = clock (host s)" "time_calls (host ?s1) = Suc (time_calls (host s))"
    "length (inode_table ?s1) = length (inode_table s)"
    by (simp_all add: eq1)
  {
    assume "free_inode_count (superblock s) \<noteq> 1"
    with c1 have c1': "free_inode_count (superblock ?s1) \<noteq> 0" by simp
    note eq2 = create_inode_slot [OF c1' k z1 first1, of d2 m2 o2 g2]
    from kl h1 have kl1: "k < length (inode_table ?s1)" by simp
    have a: "fst (create_inode ?s1 d2 m2 o2 g2) = int k" by (simp add: eq2)
    have b: "inode_table (snd (create_inode ?s1 d2 m2 o2 g2)) ! k
               = init_inode (inode_table s ! k) d2 m2 o2 g2 (clock (host s) (Suc (time_calls (host s))))"
      using kl1 by (simp add: eq2 tbl1 h1 init_inode_twice)
    have "free_inode_count (superblock (snd (create_inode ?s1 d2 m2 o2 g2)))
               = free_inode_count (superblock ?s1) - 1" by (simp add: eq2)
    with c1 have "free_inode_count (superblock (snd (create_inode ?s1 d2 m2 o2 g2)))
               = free_inode_count (superblock s) - 2" by simp
    with a b show "fst (create_inode ?s1 d2 m2 o2 g2) = int k
           \<and> inode_table (snd (create_inode ?s1 d2 m2 o2 g2)) ! k
               = init_inode (inode_table s ! k) d2 m2 o2 g2 (clock (host s) (Suc (time_calls (host s))))
           \<and> free_inode_count (superblock (snd (create_inode ?s1 d2 m2 o2 g2)))
               = free_inode_count (superblock s) - 2" by simp
  }
  {
    assume "free_inode_count (superblock s) = 1"
    with c1 have "free_inode_count (superblock ?s1) = 0" by simp
    then show "create_inode ?s1 d2 m2 o2 g2 = (-1, ?s1)"
      by (simp add: create_inode_fails)
  }
qed

lemma create_inode_times_fresh:
  "n \<le> 128 \<Longrightarrow>
     free_inode_count (superblock (create_inode_times n fresh_state)) = 128 - int n
     \<and> length (inode_table (create_inode_times n fresh_state)) = INODE_TABLE_SIZE
     \<and> i_size (inode_table (create_inode_times n fresh_state) ! 0) = 0"
proof (induction n)
  case 0
  then show ?case
    by (simp add: create_inode_times_def fresh_state_inode_table fresh_state_free_inode_count
        INODE_TABLE_SIZE_def zero_inode_def)
next
  case (Suc n)
  let ?s = "create_inode_times n fresh_state"
  from Suc have ih: "free_inode_count (superblock ?s) = 128 - int n"
    "length (inode_table ?s) = INODE_TABLE_SIZE" "i_size (inode_table ?s ! 0) = 0"
    by simp_all
  from Suc.prems ih have c: "free_inode_count (superblock ?s) \<noteq> 0" by simp
  have n0: "0 < INODE_TABLE_SIZE" by (simp add: INODE_TABLE_SIZE_def)
  have none: "\<forall>j<0. i_size (inode_table ?s ! j) \<noteq> 0" by simp
  have step: "create_inode_times (Suc n) fresh_state = snd (create_inode ?s 0 0x1FF 11 10)"
    by (simp add: create_inode_times_def)
  from create_inode_two_calls(2,3) [OF c n0 ih(2) ih(3) none, of 0 "0x1FF" 11 10] ih
    create_inode_slot [OF c n0 ih(3) none, of 0 "0x1FF" 11 10]
  show ?case by (simp add: step)
qed

lemma zero_size_slot_fresh_127:
  "free_inode_count (superblock (create_inode_times 127 fresh_state)) = 1"
  "length (inode_table (create_inode_times 127 fresh_state)) = INODE_TABLE_SIZE"
  "i_size (inode_table (create_inode_times 127 fresh_state) ! 0) = 0"
  using create_inode_times_fresh [of 127] by simp_all

text \<open>
  C5. \<open>create_inode\<close> returns \<open>-1\<close> and changes nothing when the free-inode counter
  is zero or no slot has size 0. Otherwise it takes the first slot \<open>k\<close> of size 0,
  writes all its fields (the three times are the clock reading of the call, every
  direct block reference and the index block are \<open>-1\<close>, the list of entries is empty),
  decrements the counter and leaves the other slots alone. On an empty table
  \<open>create_inode(0, 0777, 11, 10)\<close> returns 0, releasing inode 0 leaves its size 0 and
  its block references unset, and the next \<open>create_inode\<close> returns 0 again.
\<close>

theorem create_inode_first_free_slot:
  "(free_inode_count (superblock s) = 0 \<or> (\<forall>j<INODE_TABLE_SIZE. i_size (inode_table s ! j) \<noteq> 0)
      \<longrightarrow> create_inode s d m ow g = (-1, s))
   \<and> (free_inode_count (superblock s) \<noteq> 0 \<and> k < INODE_TABLE_SIZE
        \<and> length (inode_table s) = INODE_TABLE_SIZE
        \<and> i_size (inode_table s ! k) = 0 \<and> (\<forall>j<k. i_size (inode_table s ! j) \<noteq> 0)
      \<longrightarrow> fst (create_inode s d m ow g) = int k
        \<and> inode_table (snd (create_inode s d m ow g)) ! k =
            (inode_table s ! k)
              \<lparr>is_directory := d, i_size := 0, mode := m,
               atime := clock (host s) (time_calls (host s)),
               mtime := clock (host s) (time_calls (host s)),
               ctime := clock (host s) (time_calls (host s)),
               owner_id := ow, group_id := g, acl_count := 0,
               direct_blocks := replicate DIRECT_BLOCKS (-1), index_block := -1\<rparr>
        \<and> acl_entries (inode_table (snd (create_inode s d m ow g)) ! k) = []
        \<and> free_inode_count (superblock (snd (create_inode s d m ow g)))
            = free_inode_count (superblock s) - 1
        \<and> (\<forall>j<INODE_TABLE_SIZE. j \<noteq> k \<longrightarrow>
              inode_table (snd (create_inode s d m ow g)) ! j = inode_table s ! j))
   \<and> (inode_table s = replicate INODE_TABLE_SIZE zero_inode
        \<and> free_inode_count (superblock s) = int INODE_TABLE_SIZE
      \<longrightarrow> fst (create_inode s 0 0x1FF 11 10) = 0
        \<and> i_size (inode_table (release_inode (snd (create_inode s 0 0x1FF 11 10)) 0) ! 0) = 0
        \<and> direct_blocks (inode_table (release_inode (snd (create_inode s 0 0x1FF 11 10)) 0) ! 0)
            = replicate DIRECT_BLOCKS (-1)
        \<and> fst (create_inode (release_inode (snd (create_inode s 0 0x1FF 11 10)) 0) 0 0x1FF 11 10) = 0)"
proof (intro conjI impI)
  assume "free_inode_count (superblock s) = 0 \<or> (\<forall>j<INODE_TABLE_SIZE. i_size (inode_table s ! j) \<noteq> 0)"
  then show "create_inode s d m ow g = (-1, s)" by (rule create_inode_fails)
next
  assume a: "free_inode_count (superblock s) \<noteq> 0 \<and> k < INODE_TABLE_SIZE
        \<and> length (inode_table s) = INODE_TABLE_SIZE
        \<and> i_size (inode_table s ! k) = 0 \<and> (\<forall>j<k. i_size (inode_table s ! j) \<noteq> 0)"
  then have eq: "create_inode s d m ow g =
           (int k,
            s\<lparr>host := (host s)\<lparr>time_calls := Suc (time_calls (host s))\<rparr>,
              inode_table := (inode_table s)
                [k := init_inode (inode_table s ! k) d m ow g (clock (host s) (time_calls (host s)))],
              superblock := (superblock s)\<lparr>free_inode_count := free_inode_count (superblock s) - 1\<rparr>\<rparr>)"
    by (intro create_inode_slot) auto
  from a have kl: "k < length (inode_table s)" by simp
  show "fst (create_inode s d m ow g) = int k" by (simp add: eq)
  show "inode_table (snd (create_inode s d m ow g)) ! k =
            (inode_table s ! k)
              \<lparr>is_directory := d, i_size := 0, mode := m,
               atime := clock (host s) (time_calls (host s)),
               mtime := clock (host s) (time_calls (host s)),
               ctime := clock (host s) (time_calls (host s)),
               owner_id := ow, group_id := g, acl_count := 0,
               direct_blocks := replicate DIRECT_BLOCKS (-1), index_block := -1\<rparr>"
    using kl by (simp add: eq init_inode_def)
  show "acl_entries (inode_table (snd (create_inode s d m ow g)) ! k) = []"
    using kl by (simp add: eq init_inode_def acl_entries_def)
  show "free_inode_count (superblock (snd (create_inode s d m ow g)))
            = free_inode_count (superblock s) - 1"
    by (simp add: eq)
  show "\<forall>j<INODE_TABLE_SIZE. j \<noteq> k \<longrightarrow>
              inode_table (snd (create_inode s d m ow g)) ! j = inode_table s ! j"
    by (simp add: eq)
next
  assume a: "inode_table s = replicate INODE_TABLE_SIZE zero_inode
        \<and> free_inode_count (superblock s) = int INODE_TABLE_SIZE"
  then have tbl: "inode_table s = replicate INODE_TABLE_SIZE zero_inode"
    and cnt: "free_inode_count (superblock s) = int INODE_TABLE_SIZE" by auto
  show "fst (create_inode s 0 0x1FF 11 10) = 0"
    by (rule empty_table_scenario(1) [OF tbl cnt])
  show "i_size (inode_table (release_inode (snd (create_inode s 0 0x1FF 11 10)) 0) ! 0) = 0"
    by (rule empty_table_scenario(2) [OF tbl cnt])
  show "direct_blocks (inode_table (release_inode (snd (create_inode s 0 0x1FF 11 10)) 0) ! 0)
            = replicate DIRECT_BLOCKS (-1)"
    by (rule empty_table_scenario(3) [OF tbl cnt])
  show "fst (create_inode (release_inode (snd (create_inode s 0 0x1FF 11 10)) 0) 0 0x1FF 11 10) = 0"
    by (rule empty_table_scenario(5) [OF tbl cnt])
qed

theorem create_inode_first_free_slot_witness:
  "create_inode (create_inode_times 128 fresh_state) 0 0x1FF 11 10 = (-1, (create_inode_times 128 fresh_state))
   \<and> fst (create_inode fresh_state 0 0x1FF 11 10) = 0
   \<and> mode (inode_table (snd (create_inode fresh_state 0 0x1FF 11 10)) ! 0) = 0x1FF
   \<and> owner_id (inode_table (snd (create_inode fresh_state 0 0x1FF 11 10)) ! 0) = 11
   \<and> atime (inode_table (snd (create_inode fresh_state 0 0x1FF 11 10)) ! 0) = 1700000000
   \<and> direct_blocks (inode_table (snd (create_inode fresh_state 0 0x1FF 11 10)) ! 0)
       = replicate DIRECT_BLOCKS (-1)
   \<and> acl_entries (inode_table (snd (create_inode fresh_state 0 0x1FF 11 10)) ! 0) = []
   \<and> free_inode_count (superblock (snd (create_inode fresh_state 0 0x1FF 11 10))) = 127
   \<and> fst (create_inode (release_inode (snd (create_inode fresh_state 0 0x1FF 11 10)) 0) 0 0x1FF 11 10) = 0"
proof -
  have h1: "free_inode_count (superblock (create_inode_times 128 fresh_state)) = 0
              \<or> (\<forall>j<INODE_TABLE_SIZE. i_size (inode_table (create_inode_times 128 fresh_state) ! j) \<noteq> 0)"
    using create_inode_times_fresh [of 128] by simp
  have h2: "free_inode_count (superblock fresh_state) \<noteq> 0 \<and> 0 < INODE_TABLE_SIZE
        \<and> length (inode_table fresh_state) = INODE_TABLE_SIZE
        \<and> i_size (inode_table fresh_state ! 0) = 0
        \<and> (\<forall>j<0. i_size (inode_table fresh_state ! j) \<noteq> 0)"
    by (simp add: fresh_state_inode_table fresh_state_free_inode_count INODE_TABLE_SIZE_def
        zero_inode_def)
  have h3: "inode_table fresh_state = replicate INODE_TABLE_SIZE zero_inode
        \<and> free_inode_count (superblock fresh_state) = int INODE_TABLE_SIZE"
    by (simp add: fresh_state_inode_table fresh_state_free_inode_count)
  have clk: "clock (host fresh_state) (time_calls (host fresh_state)) = 1700000000"
    by (simp add: fresh_state_def init_file_system_def load_file_system_state_def
        startup_state_def example_host_def)
  from create_inode_first_free_slot [where s = "create_inode_times 128 fresh_state" and d = 0 and m = "0x1FF" and ow = 11 and g = 10] h1
  have a: "create_inode (create_inode_times 128 fresh_state) 0 0x1FF 11 10 = (-1, (create_inode_times 128 fresh_state))" by blast
  from create_inode_first_free_slot [where s = fresh_state and d = 0 and m = "0x1FF" and ow = 11 and g = 10 and k = 0] h2 h3
  have b: "fst (create_inode fresh_state 0 0x1FF 11 10) = int 0
        \<and> inode_table (snd (create_inode fresh_state 0 0x1FF 11 10)) ! 0 =
            (inode_table fresh_state ! 0)
              \<lparr>is_directory := 0, i_size := 0, mode := 0x1FF,
               atime := clock (host fresh_state) (time_calls (host fresh_state)),
               mtime := clock (host fresh_state) (time_calls (host fresh_state)),
               ctime := clock (host fresh_state) (time_calls (host fresh_state)),
               owner_id := 11, group_id := 10, acl_count := 0,
               direct_blocks := replicate DIRECT_BLOCKS (-1), index_block := -1\<rparr>
        \<and> acl_entries (inode_table (snd (create_inode fresh_state 0 0x1FF 11 10)) ! 0) = []
        \<and> free_inode_count (superblock (snd (create_inode fresh_state 0 0x1FF 11 10)))
            = free_inode_count (superblock fresh_state) - 1"
    and c: "fst (create_inode (release_inode (snd (create_inode fresh_state 0 0x1FF 11 10)) 0) 0 0x1FF 11 10) = 0"
    by blast+
  from b have r1: "fst (create_inode fresh_state 0 0x1FF 11 10) = int 0"
    and r2: "inode_table (snd (create_inode fresh_state 0 0x1FF 11 10)) ! 0 =
            (inode_table fresh_state ! 0)
              \<lparr>is_directory := 0, i_size := 0, mode := 0x1FF,
               atime := clock (host fresh_state) (time_calls (host fresh_state)),
               mtime := clock (host fresh_state) (time_calls (host fresh_state)),
               ctime := clock (host fresh_state) (time_calls (host fresh_state)),
               owner_id := 11, group_id := 10, acl_count := 0,
               direct_blocks := replicate DIRECT_BLOCKS (-1), index_block := -1\<rparr>"
    and b3: "acl_entries (inode_table (snd (create_inode fresh_state 0 0x1FF 11 10)) ! 0) = []"
    and r4: "free_inode_count (superblock (snd (create_inode fresh_state 0 0x1FF 11 10)))
            = free_inode_count (superblock fresh_state) - 1"
    by blast+
  from r1 have b1: "fst (create_inode fresh_state 0 0x1FF 11 10) = 0" by simp
  from r4 have b4: "free_inode_count (superblock (snd (create_inode fresh_state 0 0x1FF 11 10))) = 127"
    by (simp add: fresh_state_free_inode_count INODE_TABLE_SIZE_def)
  note b2 = r2 [unfolded clk]
  show ?thesis
    by (intro conjI) (simp_all add: a b1 b2 b4 c acl_entries_def)
qed

theorem create_inode_twice_counterexample:
  "i_size (inode_table (create_inode_times 127 fresh_state) ! 0) = 0
   \<and> free_inode_count (superblock (create_inode_times 127 fresh_state)) = 1
   \<and> fst (create_inode (create_inode_times 127 fresh_state) 0 0x1FF 11 10) = 0
   \<and> fst (create_inode (snd (create_inode (create_inode_times 127 fresh_state) 0 0x1FF 11 10))
                        0 0x1FF 11 10) = -1"
proof -
  let ?s = "create_inode_times 127 fresh_state"
  have c: "free_inode_count (superblock ?s) \<noteq> 0" by (simp add: zero_size_slot_fresh_127)
  have n0: "0 < INODE_TABLE_SIZE" by (simp add: INODE_TABLE_SIZE_def)
  have none: "\<forall>j<0. i_size (inode_table ?s ! j) \<noteq> 0" by simp
  note t = create_inode_two_calls [OF c n0 zero_size_slot_fresh_127(2,3) none, of 0 "0x1FF" 11 10]
  from t(1) t(5) [OF zero_size_slot_fresh_127(1), of 0 "0x1FF" 11 10] show ?thesis
    by (simp add: zero_size_slot_fresh_127)
qed

text \<open>
  C6, amended. \<open>create_inode\<close> leaves the size of the slot it takes at 0. In a state
  whose free-inode counter is at least 2 and whose first slot of size 0 is \<open>k\<close>, two
  calls of \<open>create_inode\<close> in a row both return \<open>k\<close>, the second overwrites the fields
  the first wrote, and the counter goes down by one on each call. With the counter
  at 1 the first call returns \<open>k\<close> and the second returns \<open>-1\<close> and changes nothing.
\<close>

theorem create_inode_twice_same_slot:
  "(2 \<le> free_inode_count (superblock s) \<and> k < INODE_TABLE_SIZE
      \<and> length (inode_table s) = INODE_TABLE_SIZE
      \<and> i_size (inode_table s ! k) = 0 \<and> (\<forall>j<k. i_size (inode_table s ! j) \<noteq> 0)
    \<longrightarrow> fst (create_inode s d1 m1 o1 g1) = int k
      \<and> i_size (inode_table (snd (create_inode s d1 m1 o1 g1)) ! k) = 0
      \<and> fst (create_inode (snd (create_inode s d1 m1 o1 g1)) d2 m2 o2 g2) = int k
      \<and> inode_table (snd (create_inode (snd (create_inode s d1 m1 o1 g1)) d2 m2 o2 g2)) ! k
          = init_inode (inode_table s ! k) d2 m2 o2 g2 (clock (host s) (Suc (time_calls (host s))))
      \<and> free_inode_count (superblock (snd (create_inode s d1 m1 o1 g1)))
          = free_inode_count (superblock s) - 1
      \<and> free_inode_count (superblock (snd (create_inode (snd (create_inode s d1 m1 o1 g1)) d2 m2 o2 g2)))
          = free_inode_count (superblock s) - 2)
   \<and> (free_inode_count (superblock s) = 1 \<and> k < INODE_TABLE_SIZE
      \<and> length (inode_table s) = INODE_TABLE_SIZE
      \<and> i_size (inode_table s ! k) = 0 \<and> (\<forall>j<k. i_size (inode_table s ! j) \<noteq> 0)
    \<longrightarrow> fst (create_inode s d1 m1 o1 g1) = int k
      \<and> create_inode (snd (create_inode s d1 m1 o1 g1)) d2 m2 o2 g2
          = (-1, snd (create_inode s d1 m1 o1 g1)))"
proof (intro conjI impI)
  assume a: "2 \<le> free_inode_count (superblock s) \<and> k < INODE_TABLE_SIZE
      \<and> length (inode_table s) = INODE_TABLE_SIZE
      \<and> i_size (inode_table s ! k) = 0 \<and> (\<forall>j<k. i_size (inode_table s ! j) \<noteq> 0)"
  then have c: "free_inode_count (superblock s) \<noteq> 0" and c1: "free_inode_count (superblock s) \<noteq> 1"
    and k: "k < INODE_TABLE_SIZE" and len: "length (inode_table s) = INODE_TABLE_SIZE"
    and z: "i_size (inode_table s ! k) = 0" and first: "\<forall>j<k. i_size (inode_table s ! j) \<noteq> 0"
    by auto
  note t = create_inode_two_calls [OF c k len z first, of d1 m1 o1 g1]
  show "fst (create_inode s d1 m1 o1 g1) = int k" by (rule t(1))
  show "i_size (inode_table (snd (create_inode s d1 m1 o1 g1)) ! k) = 0" by (rule t(2))
  show "free_inode_count (superblock (snd (create_inode s d1 m1 o1 g1)))
          = free_inode_count (superblock s) - 1" by (rule t(3))
  from t(4) [OF c1, of d2 m2 o2 g2]
  show "fst (create_inode (snd (create_inode s d1 m1 o1 g1)) d2 m2 o2 g2) = int k"
    and "inode_table (snd (create_inode (snd (create_inode s d1 m1 o1 g1)) d2 m2 o2 g2)) ! k
          = init_inode (inode_table s ! k) d2 m2 o2 g2 (clock (host s) (Suc (time_calls (host s))))"
    and "free_inode_count (superblock (snd (create_inode (snd (create_inode s d1 m1 o1 g1)) d2 m2 o2 g2)))
          = free_inode_count (superblock s) - 2"
    by blast+
next
  assume a: "free_inode_count (superblock s) = 1 \<and> k < INODE_TABLE_SIZE
      \<and> length (inode_table s) = INODE_TABLE_SIZE
      \<and> i_size (inode_table s ! k) = 0 \<and> (\<forall>j<k. i_size (inode_table s ! j) \<noteq> 0)"
  then have c: "free_inode_count (superblock s) \<noteq> 0" and c1: "free_inode_count (superblock s) = 1"
    and k: "k < INODE_TABLE_SIZE" and len: "length (inode_table s) = INODE_TABLE_SIZE"
    and z: "i_size (inode_table s ! k) = 0" and first: "\<forall>j<k. i_size (inode_table s ! j) \<noteq> 0"
    by auto
  note t = create_inode_two_calls [OF c k len z first, of d1 m1 o1 g1]
  show "fst (create_inode s d1 m1 o1 g1) = int k" by (rule t(1))
  show "create_inode (snd (create_inode s d1 m1 o1 g1)) d2 m2 o2 g2
          = (-1, snd (create_inode s d1 m1 o1 g1))" by (rule t(5) [OF c1])
qed

theorem create_inode_twice_same_slot_witness:
  "fst (create_inode fresh_state 0 0x1FF 11 10) = 0
   \<and> fst (create_inode (snd (create_inode fresh_state 0 0x1FF 11 10)) 1 0x1ED 12 13) = 0
   \<and> mode (inode_table (snd (create_inode (snd (create_inode fresh_state 0 0x1FF 11 10)) 1 0x1ED 12 13)) ! 0)
       = 0x1ED
   \<and> free_inode_count (superblock (snd (create_inode fresh_state 0 0x1FF 11 10))) = 127
   \<and> free_inode_count
        (superblock (snd (create_inode (snd (create_inode fresh_state 0 0x1FF 11 10)) 1 0x1ED 12 13)))
       = 126
   \<and> create_inode (snd (create_inode (create_inode_times 127 fresh_state) 0 0x1FF 11 10)) 1 0x1ED 12 13
       = (-1, snd (create_inode (create_inode_times 127 fresh_state) 0 0x1FF 11 10))"
proof -
  have h1: "2 \<le> free_inode_count (superblock fresh_state) \<and> 0 < INODE_TABLE_SIZE
      \<and> length (inode_table fresh_state) = INODE_TABLE_SIZE
      \<and> i_size (inode_table fresh_state ! 0) = 0
      \<and> (\<forall>j<0. i_size (inode_table fresh_state ! j) \<noteq> 0)"
    by (simp add: fresh_state_inode_table fresh_state_free_inode_count INODE_TABLE_SIZE_def
        zero_inode_def)
  have h2: "free_inode_count (superblock (create_inode_times 127 fresh_state)) = 1
      \<and> 0 < INODE_TABLE_SIZE
      \<and> length (inode_table (create_inode_times 127 fresh_state)) = INODE_TABLE_SIZE
      \<and> i_size (inode_table (create_inode_times 127 fresh_state) ! 0) = 0
      \<and> (\<forall>j<0. i_size (inode_table (create_inode_times 127 fresh_state) ! j) \<noteq> 0)"
    by (simp add: zero_size_slot_fresh_127 INODE_TABLE_SIZE_def)
  from create_inode_twice_same_slot [where s = fresh_state and k = 0 and ?d1.0 = 0
      and ?m1.0 = "0x1FF" and ?o1.0 = 11 and ?g1.0 = 10 and ?d2.0 = 1 and ?m2.0 = "0x1ED"
      and ?o2.0 = 12 and ?g2.0 = 13] h1
  have a1: "fst (create_inode fresh_state 0 0x1FF 11 10) = int 0"
    and a2: "fst (create_inode (snd (create_inode fresh_state 0 0x1FF 11 10)) 1 0x1ED 12 13) = int 0"
    and a3: "inode_table (snd (create_inode (snd (create_inode fresh_state 0 0x1FF 11 10)) 1 0x1ED 12 13)) ! 0
          = init_inode (inode_table fresh_state ! 0) 1 0x1ED 12 13
              (clock (host fresh_state) (Suc (time_calls (host fresh_state))))"
    and a4: "free_inode_count (superblock (snd (create_inode fresh_state 0 0x1FF 11 10)))
          = free_inode_count (superblock fresh_state) - 1"
    and a5: "free_inode_count
        (superblock (snd (create_inode (snd (create_inode fresh_state 0 0x1FF 11 10)) 1 0x1ED 12 13)))
          = free_inode_count (superblock fresh_state) - 2"
    by blast+
  from create_inode_twice_same_slot [where s = "create_inode_times 127 fresh_state" and k = 0
      and ?d1.0 = 0 and ?m1.0 = "0x1FF" and ?o1.0 = 11 and ?g1.0 = 10 and ?d2.0 = 1
      and ?m2.0 = "0x1ED" and ?o2.0 = 12 and ?g2.0 = 13] h2
  have b: "create_inode (snd (create_inode (create_inode_times 127 fresh_state) 0 0x1FF 11 10)) 1 0x1ED 12 13
       = (-1, snd (create_inode (create_inode_times 127 fresh_state) 0 0x1FF 11 10))"
    by blast
  have m: "mode (inode_table (snd (create_inode (snd (create_inode fresh_state 0 0x1FF 11 10)) 1 0x1ED 12 13)) ! 0)
       = 0x1ED"
    by (simp add: a3 init_inode_def)
  from a1 a2 a4 a5 b m show ?thesis
    by (simp add: fresh_state_free_inode_count INODE_TABLE_SIZE_def)
qed

section \<open>Permissions and access control lists: lemmas and claims C3, C9, C8\<close>

lemma find_acl_index_find:
  "cnt \<le> length es \<Longrightarrow> i \<le> cnt \<Longrightarrow>
     map_option (\<lambda>k. es ! k) (find_acl_index es cnt uid i)
       = find (\<lambda>e. user_id e = uid) (drop i (take cnt es))"
proof (induction es cnt uid i rule: find_acl_index.induct)
  case (1 es cnt uid i)
  show ?case
  proof (cases "i < cnt")
    case False
    then have "find_acl_index es cnt uid i = None"
      by (subst find_acl_index.simps) simp
    with False "1.prems" show ?thesis by simp
  next
    case True
    with "1.prems" have split: "drop i (take cnt es) = es ! i # drop (Suc i) (take cnt es)"
      by (simp add: Cons_nth_drop_Suc [symmetric])
    show ?thesis
    proof (cases "user_id (es ! i) = uid")
      case hit: True
      with True split show ?thesis by (simp add: find_acl_index.simps [of es cnt uid i])
    next
      case miss: False
      from True have "Suc i \<le> cnt" by simp
      from "1.IH" [OF True miss "1.prems"(1) this] True miss split show ?thesis
        by (simp add: find_acl_index.simps [of es cnt uid i])
    qed
  qed
qed

lemma find_acl_index_Some:
  "find_acl_index es cnt uid i = Some k \<Longrightarrow> i \<le> k \<and> k < cnt \<and> user_id (es ! k) = uid"
proof (induction es cnt uid i rule: find_acl_index.induct)
  case (1 es cnt uid i)
  show ?case
  proof (cases "i < cnt")
    case False
    then have "find_acl_index es cnt uid i = None"
      by (subst find_acl_index.simps) simp
    with "1.prems" show ?thesis by simp
  next
    case True
    show ?thesis
    proof (cases "user_id (es ! i) = uid")
      case hit: True
      with True have "find_acl_index es cnt uid i = Some i"
        by (subst find_acl_index.simps) simp
      with "1.prems" True hit show ?thesis by simp
    next
      case miss: False
      with True have "find_acl_index es cnt uid i = find_acl_index es cnt uid (Suc i)"
        by (subst find_acl_index.simps) simp
      with "1.prems" have "find_acl_index es cnt uid (Suc i) = Some k" by simp
      from "1.IH" [OF True miss this] show ?thesis by simp
    qed
  qed
qed

lemma get_acl_permissions_override:
  assumes "0 \<le> ino" "ino < int INODE_TABLE_SIZE"
    and "acl_count (inode_table s ! nat ino) \<le> length (acl (inode_table s ! nat ino))"
  shows "get_acl_permissions s ino uid = acl_override (inode_table s ! nat ino) uid"
proof -
  let ?inode = "inode_table s ! nat ino"
  from find_acl_index_find [OF assms(3), of 0 uid]
  have "map_option (\<lambda>k. acl ?inode ! k) (find_acl_index (acl ?inode) (acl_count ?inode) uid 0)
          = find (\<lambda>e. user_id e = uid) (acl_entries ?inode)"
    by (simp add: acl_entries_def)
  with assms(1,2) show ?thesis
    by (auto simp: get_acl_permissions_def acl_override_def Let_def split: option.splits)
qed

lemma has_permission_resolve_spec:
  assumes "0 \<le> ino" "ino < int INODE_TABLE_SIZE"
    and "acl_count (inode_table s ! nat ino) \<le> length (acl (inode_table s ! nat ino))"
  shows "has_permission s ino uid req = resolve_spec (inode_table s ! nat ino) uid req"
  using assms get_acl_permissions_override [OF assms, of uid]
  by (simp add: has_permission_def resolve_spec_def class_bits_def Let_def)

lemma add_acl_entry_inode:
  assumes "0 \<le> ino" "ino < int INODE_TABLE_SIZE" "length (inode_table s) = INODE_TABLE_SIZE"
    and "acl_count (inode_table s ! nat ino) < MAX_ACL_ENTRIES"
    and "perms AND NOT (PERMISSION_READ OR PERMISSION_WRITE OR PERMISSION_EXECUTE) = 0"
  shows "inode_table (add_acl_entry s ino uid perms) ! nat ino =
           (inode_table s ! nat ino)
             \<lparr>acl := (acl (inode_table s ! nat ino))
                      [acl_count (inode_table s ! nat ino) := \<lparr>user_id = uid, permissions = perms\<rparr>],
              acl_count := acl_count (inode_table s ! nat ino) + 1\<rparr>"
proof -
  from assms(1-3) have "nat ino < length (inode_table s)" by simp
  with assms show ?thesis by (simp add: add_acl_entry_def Let_def)
qed

lemma add_acl_entry_entries:
  assumes "0 \<le> ino" "ino < int INODE_TABLE_SIZE" "length (inode_table s) = INODE_TABLE_SIZE"
    and "acl_count (inode_table s ! nat ino) < MAX_ACL_ENTRIES"
    and "length (acl (inode_table s ! nat ino)) = MAX_ACL_ENTRIES"
    and "perms AND NOT (PERMISSION_READ OR PERMISSION_WRITE OR PERMISSION_EXECUTE) = 0"
  shows "acl_entries (inode_table (add_acl_entry s ino uid perms) ! nat ino) =
           acl_entries (inode_table s ! nat ino) @ [\<lparr>user_id = uid, permissions = perms\<rparr>]"
  using assms(4,5)
  by (simp add: add_acl_entry_inode [OF assms(1-4) assms(6)] acl_entries_def take_Suc_update)

lemma write_bits_valid:
  "PERMISSION_WRITE AND NOT (PERMISSION_READ OR PERMISSION_WRITE OR PERMISSION_EXECUTE) = 0"
  by (simp add: PERMISSION_READ_def PERMISSION_WRITE_def PERMISSION_EXECUTE_def)

lemma read_bits_valid:
  "PERMISSION_READ AND NOT (PERMISSION_READ OR PERMISSION_WRITE OR PERMISSION_EXECUTE) = 0"
  by (simp add: PERMISSION_READ_def PERMISSION_WRITE_def PERMISSION_EXECUTE_def)

lemma class_bits_0644_other:
  "mode inode = 0x1A4 \<Longrightarrow> owner_id inode \<noteq> uid \<Longrightarrow> class_bits inode uid = 4"
  by (simp add: class_bits_def)

lemma state_0644_inode:
  "inode_table state_0644 ! 0 = init_inode zero_inode 0 0x1A4 11 10 1700000000"
  "length (inode_table state_0644) = INODE_TABLE_SIZE"
  by (simp_all add: state_0644_def fresh_state_create INODE_TABLE_SIZE_def)

lemma state_0644_acl:
  "length (acl (inode_table state_0644 ! 0)) = MAX_ACL_ENTRIES"
  "acl_count (inode_table state_0644 ! 0) = 0"
  "acl_entries (inode_table state_0644 ! 0) = []"
  by (simp_all add: state_0644_inode init_inode_def zero_inode_def acl_entries_def)

lemma state_acl_99_facts:
  "length (inode_table state_acl_99) = INODE_TABLE_SIZE"
  "length (acl (inode_table state_acl_99 ! 0)) = MAX_ACL_ENTRIES"
  "acl_count (inode_table state_acl_99 ! 0) = 1"
  "acl_entries (inode_table state_acl_99 ! 0) = [\<lparr>user_id = 99, permissions = PERMISSION_WRITE\<rparr>]"
proof -
  have r: "(0::int) \<le> 0" "0 < int INODE_TABLE_SIZE" by (simp_all add: INODE_TABLE_SIZE_def)
  have room: "acl_count (inode_table state_0644 ! nat 0) < MAX_ACL_ENTRIES"
    by (simp add: state_0644_acl MAX_ACL_ENTRIES_def)
  have alen: "length (acl (inode_table state_0644 ! nat 0)) = MAX_ACL_ENTRIES"
    by (simp add: state_0644_acl)
  note i = add_acl_entry_inode [OF r state_0644_inode(2) room write_bits_valid, of 99]
  note e = add_acl_entry_entries [OF r state_0644_inode(2) room alen write_bits_valid, of 99]
  show "length (inode_table state_acl_99) = INODE_TABLE_SIZE"
    by (simp add: state_acl_99_def add_acl_entry_def Let_def state_0644_inode(2))
  from i show "length (acl (inode_table state_acl_99 ! 0)) = MAX_ACL_ENTRIES"
    by (simp add: state_acl_99_def state_0644_acl)
  from i show "acl_count (inode_table state_acl_99 ! 0) = 1"
    by (simp add: state_acl_99_def state_0644_acl)
  from e show "acl_entries (inode_table state_acl_99 ! 0)
      = [\<lparr>user_id = 99, permissions = PERMISSION_WRITE\<rparr>]"
    by (simp add: state_acl_99_def state_0644_acl)
qed

text \<open>
  C3. For an inode number in range, \<open>has_permission\<close> is the resolution of the
  specification: the bits of the identity class (owner bits if the user is the owner,
  else group bits if the user is the group, else other bits), combined by OR with the
  permissions of the first list entry for that exact user (none: no bits), cover the
  request. In particular, on an inode with mode \<open>0644\<close> (\<open>0x1A4\<close>), owner 11, no
  entry for user 99 and room in its list, user 99 has no write permission, and has it
  after \<open>add_acl_entry(inode, 99, PERMISSION_WRITE)\<close>.
\<close>

theorem has_permission_resolution:
  "(0 \<le> ino \<and> ino < int INODE_TABLE_SIZE
     \<and> acl_count (inode_table s ! nat ino) \<le> length (acl (inode_table s ! nat ino))
    \<longrightarrow> has_permission s ino uid req = resolve_spec (inode_table s ! nat ino) uid req)
   \<and> (0 \<le> ino \<and> ino < int INODE_TABLE_SIZE \<and> length (inode_table s) = INODE_TABLE_SIZE
      \<and> mode (inode_table s ! nat ino) = 0x1A4 \<and> owner_id (inode_table s ! nat ino) = 11
      \<and> length (acl (inode_table s ! nat ino)) = MAX_ACL_ENTRIES
      \<and> acl_count (inode_table s ! nat ino) < MAX_ACL_ENTRIES
      \<and> (\<forall>e \<in> set (acl_entries (inode_table s ! nat ino)). user_id e \<noteq> 99)
    \<longrightarrow> \<not> has_permission s ino 99 PERMISSION_WRITE
        \<and> has_permission (add_acl_entry s ino 99 PERMISSION_WRITE) ino 99 PERMISSION_WRITE)"
proof (intro conjI impI)
  assume "0 \<le> ino \<and> ino < int INODE_TABLE_SIZE
     \<and> acl_count (inode_table s ! nat ino) \<le> length (acl (inode_table s ! nat ino))"
  then show "has_permission s ino uid req = resolve_spec (inode_table s ! nat ino) uid req"
    by (simp add: has_permission_resolve_spec)
next
  let ?inode = "inode_table s ! nat ino"
  assume a: "0 \<le> ino \<and> ino < int INODE_TABLE_SIZE \<and> length (inode_table s) = INODE_TABLE_SIZE
      \<and> mode ?inode = 0x1A4 \<and> owner_id ?inode = 11
      \<and> length (acl ?inode) = MAX_ACL_ENTRIES
      \<and> acl_count ?inode < MAX_ACL_ENTRIES
      \<and> (\<forall>e \<in> set (acl_entries ?inode). user_id e \<noteq> 99)"
  then have r: "0 \<le> ino" "ino < int INODE_TABLE_SIZE" and cnt: "acl_count ?inode \<le> length (acl ?inode)"
    by auto
  from a have "acl_override ?inode 99 = 0"
    by (simp add: acl_override_def find_miss)
  moreover from a have "class_bits ?inode 99 = 4"
    by (simp add: class_bits_0644_other)
  ultimately have "\<not> resolve_spec ?inode 99 PERMISSION_WRITE"
    by (simp add: resolve_spec_def PERMISSION_WRITE_def)
  then show "\<not> has_permission s ino 99 PERMISSION_WRITE"
    by (simp add: has_permission_resolve_spec [OF r cnt])
next
  let ?inode = "inode_table s ! nat ino"
  let ?s' = "add_acl_entry s ino 99 PERMISSION_WRITE"
  let ?inode' = "inode_table ?s' ! nat ino"
  assume a: "0 \<le> ino \<and> ino < int INODE_TABLE_SIZE \<and> length (inode_table s) = INODE_TABLE_SIZE
      \<and> mode ?inode = 0x1A4 \<and> owner_id ?inode = 11
      \<and> length (acl ?inode) = MAX_ACL_ENTRIES
      \<and> acl_count ?inode < MAX_ACL_ENTRIES
      \<and> (\<forall>e \<in> set (acl_entries ?inode). user_id e \<noteq> 99)"
  then have r: "0 \<le> ino" "ino < int INODE_TABLE_SIZE"
    and len: "length (inode_table s) = INODE_TABLE_SIZE"
    and room: "acl_count ?inode < MAX_ACL_ENTRIES"
    and alen: "length (acl ?inode) = MAX_ACL_ENTRIES"
    by auto
  have inode': "?inode' = ?inode\<lparr>acl := (acl ?inode)
                      [acl_count ?inode := \<lparr>user_id = 99, permissions = PERMISSION_WRITE\<rparr>],
              acl_count := acl_count ?inode + 1\<rparr>"
    by (rule add_acl_entry_inode [OF r len room write_bits_valid])
  have ents: "acl_entries ?inode' = acl_entries ?inode @ [\<lparr>user_id = 99, permissions = PERMISSION_WRITE\<rparr>]"
    by (rule add_acl_entry_entries [OF r len room alen write_bits_valid])
  from room alen have cnt': "acl_count ?inode' \<le> length (acl ?inode')"
    by (simp add: inode')
  from a have "acl_override ?inode' 99 = PERMISSION_WRITE"
    by (simp add: acl_override_def ents find_append_miss)
  moreover from a have "class_bits ?inode' 99 = 4"
    by (simp add: class_bits_0644_other inode')
  ultimately have "resolve_spec ?inode' 99 PERMISSION_WRITE"
    by (simp add: resolve_spec_def PERMISSION_WRITE_def)
  then show "has_permission ?s' ino 99 PERMISSION_WRITE"
    by (simp add: has_permission_resolve_spec [OF r cnt'])
qed

theorem has_permission_resolution_witness:
  "has_permission state_0644 0 11 PERMISSION_WRITE
     = resolve_spec (inode_table state_0644 ! 0) 11 PERMISSION_WRITE
   \<and> has_permission state_0644 0 11 PERMISSION_WRITE
   \<and> \<not> has_permission state_0644 0 99 PERMISSION_WRITE
   \<and> has_permission (add_acl_entry state_0644 0 99 PERMISSION_WRITE) 0 99 PERMISSION_WRITE"
proof -
  have h1: "(0::int) \<le> 0 \<and> 0 < int INODE_TABLE_SIZE
     \<and> acl_count (inode_table state_0644 ! nat 0) \<le> length (acl (inode_table state_0644 ! nat 0))"
    by (simp add: state_0644_inode init_inode_def INODE_TABLE_SIZE_def)
  have h2: "(0::int) \<le> 0 \<and> 0 < int INODE_TABLE_SIZE \<and> length (inode_table state_0644) = INODE_TABLE_SIZE
      \<and> mode (inode_table state_0644 ! nat 0) = 0x1A4 \<and> owner_id (inode_table state_0644 ! nat 0) = 11
      \<and> length (acl (inode_table state_0644 ! nat 0)) = MAX_ACL_ENTRIES
      \<and> acl_count (inode_table state_0644 ! nat 0) < MAX_ACL_ENTRIES
      \<and> (\<forall>e \<in> set (acl_entries (inode_table state_0644 ! nat 0)). user_id e \<noteq> 99)"
    by (simp add: state_0644_inode init_inode_def INODE_TABLE_SIZE_def zero_inode_def
        MAX_ACL_ENTRIES_def acl_entries_def)
  from has_permission_resolution [where s = state_0644 and ino = 0 and uid = 11
      and req = PERMISSION_WRITE] h1 h2
  have a: "has_permission state_0644 0 11 PERMISSION_WRITE
             = resolve_spec (inode_table state_0644 ! nat 0) 11 PERMISSION_WRITE"
    and b: "\<not> has_permission state_0644 0 99 PERMISSION_WRITE"
    and c: "has_permission (add_acl_entry state_0644 0 99 PERMISSION_WRITE) 0 99 PERMISSION_WRITE"
    by blast+
  have d: "resolve_spec (inode_table state_0644 ! 0) 11 PERMISSION_WRITE"
    by (simp add: state_0644_inode resolve_spec_def class_bits_def init_inode_def
        PERMISSION_WRITE_def acl_override_def acl_entries_def)
  from a b c d show ?thesis by simp
qed

lemma set_permissions_low_bits:
  "0 \<le> ino \<Longrightarrow> ino < int INODE_TABLE_SIZE \<Longrightarrow>
     set_permissions s ino perms =
       (if perms AND NOT 7 = 0
        then s\<lparr>inode_table := (inode_table s)[nat ino := (inode_table s ! nat ino)\<lparr>mode := perms\<rparr>]\<rparr>
        else s)"
  by (simp add: set_permissions_def PERMISSION_READ_def PERMISSION_WRITE_def PERMISSION_EXECUTE_def)

text \<open>
  C9 (a mode that is valid in the 9-bit encoding is stored by \<open>set_permissions\<close>).
  The code rejects every mode with a bit outside \<open>0x7\<close>: for the mode \<open>0644\<close>
  (\<open>0x1A4\<close>), and any inode number and state, \<open>set_permissions\<close> changes nothing and
  the mode read back is the old one.
\<close>

theorem set_permissions_rejects_0644:
  "set_permissions s ino 0x1A4 = s \<and> get_permissions (set_permissions s ino 0x1A4) ino = get_permissions s ino"
  by (simp add: set_permissions_def PERMISSION_READ_def PERMISSION_WRITE_def PERMISSION_EXECUTE_def)

lemma remove_acl_entry_distinct:
  assumes len: "length (inode_table s) = INODE_TABLE_SIZE"
    and wf: "acl_count (inode_table s ! k) \<le> length (acl (inode_table s ! k))"
    and d: "distinct (map user_id (acl_entries (inode_table s ! k)))"
  shows "distinct (map user_id (acl_entries (inode_table (remove_acl_entry s ino uid) ! k)))"
proof (cases "0 \<le> ino \<and> ino < int INODE_TABLE_SIZE \<and> nat ino = k")
  case False
  then have "inode_table (remove_acl_entry s ino uid) ! k = inode_table s ! k"
    by (auto simp: remove_acl_entry_def Let_def split: option.splits)
  with d show ?thesis by simp
next
  case True
  let ?inode = "inode_table s ! k"
  show ?thesis
  proof (cases "find_acl_index (acl ?inode) (acl_count ?inode) uid 0")
    case None
    with True have "remove_acl_entry s ino uid = s"
      by (auto simp: remove_acl_entry_def Let_def)
    with d show ?thesis by simp
  next
    case (Some i)
    from find_acl_index_Some [OF Some] have i: "i < acl_count ?inode" by simp
    from True len have kl: "k < length (inode_table s)" by auto
    from True Some kl have
      "inode_table (remove_acl_entry s ino uid) ! k =
         ?inode\<lparr>acl := memmove_down (acl ?inode) i (acl_count ?inode),
                 acl_count := acl_count ?inode - 1\<rparr>"
      by (auto simp: remove_acl_entry_def Let_def)
    then have "acl_entries (inode_table (remove_acl_entry s ino uid) ! k) =
        take (acl_count ?inode - 1) (memmove_down (acl ?inode) i (acl_count ?inode))"
      by (simp add: acl_entries_def)
    also have "\<dots> = take i (take (acl_count ?inode) (acl ?inode))
                    @ drop (Suc i) (take (acl_count ?inode) (acl ?inode))"
      by (rule take_memmove_down [OF i wf])
    finally have "acl_entries (inode_table (remove_acl_entry s ino uid) ! k) =
        take i (acl_entries ?inode) @ drop (Suc i) (acl_entries ?inode)"
      unfolding acl_entries_def .
    moreover from i wf have "i < length (acl_entries ?inode)" by (simp add: acl_entries_def)
    ultimately show ?thesis using distinct_map_remove_nth [OF d] by simp
  qed
qed

lemma add_acl_entry_distinct:
  assumes len: "length (inode_table s) = INODE_TABLE_SIZE"
    and alen: "length (acl (inode_table s ! k)) = MAX_ACL_ENTRIES"
    and d: "distinct (map user_id (acl_entries (inode_table s ! k)))"
    and new: "uid \<notin> user_id ` set (acl_entries (inode_table s ! k))"
  shows "distinct (map user_id (acl_entries (inode_table (add_acl_entry s ino uid perms) ! k)))"
proof (cases "0 \<le> ino \<and> ino < int INODE_TABLE_SIZE \<and> nat ino = k
    \<and> acl_count (inode_table s ! k) < MAX_ACL_ENTRIES
    \<and> perms AND NOT (PERMISSION_READ OR PERMISSION_WRITE OR PERMISSION_EXECUTE) = 0")
  case False
  then have "inode_table (add_acl_entry s ino uid perms) ! k = inode_table s ! k"
    by (cases "nat ino = k") (auto simp: add_acl_entry_def Let_def)
  with d show ?thesis by simp
next
  case True
  then have r: "0 \<le> ino" "ino < int INODE_TABLE_SIZE" and k: "nat ino = k" by auto
  from True k have room: "acl_count (inode_table s ! nat ino) < MAX_ACL_ENTRIES"
    and ok: "perms AND NOT (PERMISSION_READ OR PERMISSION_WRITE OR PERMISSION_EXECUTE) = 0"
    by auto
  from alen k have alen': "length (acl (inode_table s ! nat ino)) = MAX_ACL_ENTRIES" by simp
  from add_acl_entry_entries [OF r len room alen' ok, of uid] k d new show ?thesis
    by simp
qed

lemma add_acl_entry_repeats_user:
  assumes r: "0 \<le> ino" "ino < int INODE_TABLE_SIZE"
    and len: "length (inode_table s) = INODE_TABLE_SIZE"
    and alen: "length (acl (inode_table s ! nat ino)) = MAX_ACL_ENTRIES"
    and room: "acl_count (inode_table s ! nat ino) < MAX_ACL_ENTRIES"
    and ok: "perms AND NOT (PERMISSION_READ OR PERMISSION_WRITE OR PERMISSION_EXECUTE) = 0"
    and old: "uid \<in> user_id ` set (acl_entries (inode_table s ! nat ino))"
  shows "\<not> distinct (map user_id (acl_entries (inode_table (add_acl_entry s ino uid perms) ! nat ino)))"
  using add_acl_entry_entries [OF r len room alen ok, of uid] old by simp

theorem add_acl_entry_duplicate_counterexample:
  "map user_id (acl_entries (inode_table state_acl_99 ! 0)) = [99]
   \<and> map user_id (acl_entries (inode_table (add_acl_entry state_acl_99 0 99 PERMISSION_READ) ! 0))
       = [99, 99]
   \<and> \<not> distinct (map user_id
          (acl_entries (inode_table (add_acl_entry state_acl_99 0 99 PERMISSION_READ) ! 0)))"
proof -
  have r: "(0::int) \<le> 0" "0 < int INODE_TABLE_SIZE" by (simp_all add: INODE_TABLE_SIZE_def)
  have room: "acl_count (inode_table state_acl_99 ! nat 0) < MAX_ACL_ENTRIES"
    by (simp add: state_acl_99_facts MAX_ACL_ENTRIES_def)
  have alen: "length (acl (inode_table state_acl_99 ! nat 0)) = MAX_ACL_ENTRIES"
    by (simp add: state_acl_99_facts)
  from add_acl_entry_entries [OF r state_acl_99_facts(1) room alen read_bits_valid, of 99]
  show ?thesis by (simp add: state_acl_99_facts)
qed

text \<open>
  C8, amended. Distinct user ids in an inode's list stay distinct under
  \<open>remove_acl_entry\<close>, and under \<open>add_acl_entry\<close> when the user has no entry yet.
  \<open>add_acl_entry\<close> for a user that has an entry, on a list with room and with valid
  permission bits, appends a second entry for that user.
\<close>

theorem acl_user_ids_distinct_unless_readded:
  "(length (inode_table s) = INODE_TABLE_SIZE
      \<and> acl_count (inode_table s ! k) \<le> length (acl (inode_table s ! k))
      \<and> distinct (map user_id (acl_entries (inode_table s ! k)))
    \<longrightarrow> distinct (map user_id (acl_entries (inode_table (remove_acl_entry s ino uid) ! k))))
   \<and> (length (inode_table s) = INODE_TABLE_SIZE
      \<and> length (acl (inode_table s ! k)) = MAX_ACL_ENTRIES
      \<and> distinct (map user_id (acl_entries (inode_table s ! k)))
      \<and> uid \<notin> user_id ` set (acl_entries (inode_table s ! k))
    \<longrightarrow> distinct (map user_id (acl_entries (inode_table (add_acl_entry s ino uid perms) ! k))))
   \<and> (0 \<le> ino \<and> ino < int INODE_TABLE_SIZE \<and> length (inode_table s) = INODE_TABLE_SIZE
      \<and> length (acl (inode_table s ! nat ino)) = MAX_ACL_ENTRIES
      \<and> acl_count (inode_table s ! nat ino) < MAX_ACL_ENTRIES
      \<and> perms AND NOT (PERMISSION_READ OR PERMISSION_WRITE OR PERMISSION_EXECUTE) = 0
      \<and> uid \<in> user_id ` set (acl_entries (inode_table s ! nat ino))
    \<longrightarrow> acl_entries (inode_table (add_acl_entry s ino uid perms) ! nat ino)
          = acl_entries (inode_table s ! nat ino) @ [\<lparr>user_id = uid, permissions = perms\<rparr>]
        \<and> \<not> distinct (map user_id
              (acl_entries (inode_table (add_acl_entry s ino uid perms) ! nat ino))))"
proof (intro conjI impI)
  assume "length (inode_table s) = INODE_TABLE_SIZE
      \<and> acl_count (inode_table s ! k) \<le> length (acl (inode_table s ! k))
      \<and> distinct (map user_id (acl_entries (inode_table s ! k)))"
  then show "distinct (map user_id (acl_entries (inode_table (remove_acl_entry s ino uid) ! k)))"
    by (simp add: remove_acl_entry_distinct)
next
  assume "length (inode_table s) = INODE_TABLE_SIZE
      \<and> length (acl (inode_table s ! k)) = MAX_ACL_ENTRIES
      \<and> distinct (map user_id (acl_entries (inode_table s ! k)))
      \<and> uid \<notin> user_id ` set (acl_entries (inode_table s ! k))"
  then show "distinct (map user_id (acl_entries (inode_table (add_acl_entry s ino uid perms) ! k)))"
    by (simp add: add_acl_entry_distinct)
next
  assume a: "0 \<le> ino \<and> ino < int INODE_TABLE_SIZE \<and> length (inode_table s) = INODE_TABLE_SIZE
      \<and> length (acl (inode_table s ! nat ino)) = MAX_ACL_ENTRIES
      \<and> acl_count (inode_table s ! nat ino) < MAX_ACL_ENTRIES
      \<and> perms AND NOT (PERMISSION_READ OR PERMISSION_WRITE OR PERMISSION_EXECUTE) = 0
      \<and> uid \<in> user_id ` set (acl_entries (inode_table s ! nat ino))"
  then show "acl_entries (inode_table (add_acl_entry s ino uid perms) ! nat ino)
          = acl_entries (inode_table s ! nat ino) @ [\<lparr>user_id = uid, permissions = perms\<rparr>]"
    by (intro add_acl_entry_entries) auto
  from a show "\<not> distinct (map user_id
              (acl_entries (inode_table (add_acl_entry s ino uid perms) ! nat ino)))"
    by (intro add_acl_entry_repeats_user) auto
qed

theorem acl_user_ids_distinct_unless_readded_witness:
  "distinct (map user_id (acl_entries (inode_table (remove_acl_entry state_acl_99 0 99) ! 0)))
   \<and> distinct (map user_id
        (acl_entries (inode_table (add_acl_entry state_acl_99 0 98 PERMISSION_READ) ! 0)))
   \<and> acl_entries (inode_table (add_acl_entry state_acl_99 0 99 PERMISSION_READ) ! 0)
       = [\<lparr>user_id = 99, permissions = PERMISSION_WRITE\<rparr>,
          \<lparr>user_id = 99, permissions = PERMISSION_READ\<rparr>]"
proof -
  have h1: "length (inode_table state_acl_99) = INODE_TABLE_SIZE
      \<and> acl_count (inode_table state_acl_99 ! 0) \<le> length (acl (inode_table state_acl_99 ! 0))
      \<and> distinct (map user_id (acl_entries (inode_table state_acl_99 ! 0)))"
    by (simp add: state_acl_99_facts MAX_ACL_ENTRIES_def)
  have h2: "length (inode_table state_acl_99) = INODE_TABLE_SIZE
      \<and> length (acl (inode_table state_acl_99 ! 0)) = MAX_ACL_ENTRIES
      \<and> distinct (map user_id (acl_entries (inode_table state_acl_99 ! 0)))
      \<and> 98 \<notin> user_id ` set (acl_entries (inode_table state_acl_99 ! 0))"
    by (simp add: state_acl_99_facts)
  have h3: "(0::int) \<le> 0 \<and> 0 < int INODE_TABLE_SIZE
      \<and> length (inode_table state_acl_99) = INODE_TABLE_SIZE
      \<and> length (acl (inode_table state_acl_99 ! nat 0)) = MAX_ACL_ENTRIES
      \<and> acl_count (inode_table state_acl_99 ! nat 0) < MAX_ACL_ENTRIES
      \<and> PERMISSION_READ AND NOT (PERMISSION_READ OR PERMISSION_WRITE OR PERMISSION_EXECUTE) = 0
      \<and> 99 \<in> user_id ` set (acl_entries (inode_table state_acl_99 ! nat 0))"
    using read_bits_valid
    by (simp add: state_acl_99_facts MAX_ACL_ENTRIES_def INODE_TABLE_SIZE_def)
  from acl_user_ids_distinct_unless_readded [where s = state_acl_99 and k = 0 and ino = 0
      and uid = 99 and perms = PERMISSION_READ] h1 h3
  have a: "distinct (map user_id (acl_entries (inode_table (remove_acl_entry state_acl_99 0 99) ! 0)))"
    and c: "acl_entries (inode_table (add_acl_entry state_acl_99 0 99 PERMISSION_READ) ! nat 0)
          = acl_entries (inode_table state_acl_99 ! nat 0)
            @ [\<lparr>user_id = 99, permissions = PERMISSION_READ\<rparr>]"
    by blast+
  from acl_user_ids_distinct_unless_readded [where s = state_acl_99 and k = 0 and ino = 0
      and uid = 98 and perms = PERMISSION_READ] h2
  have b: "distinct (map user_id
        (acl_entries (inode_table (add_acl_entry state_acl_99 0 98 PERMISSION_READ) ! 0)))"
    by blast
  from a b c show ?thesis by (simp add: state_acl_99_facts)
qed

section \<open>Journal: lemmas and claim C10\<close>

lemma add_journal_entry_fields:
  "journal (add_journal_entry s operation (Some f) nf d) =
     (journal s)[journal_index s := stored_entry operation f nf d (clock (host s) (time_calls (host s)))]"
  "journal_index (add_journal_entry s operation (Some f) nf d) = (journal_index s + 1) mod JOURNAL_SIZE"
  "time_calls (host (add_journal_entry s operation (Some f) nf d)) = Suc (time_calls (host s))"
  "clock (host (add_journal_entry s operation (Some f) nf d)) = clock (host s)"
  "journal_log_writable (host (add_journal_entry s operation (Some f) nf d)) = journal_log_writable (host s)"
  "superblock (add_journal_entry s operation (Some f) nf d) = superblock s"
  "inode_table (add_journal_entry s operation (Some f) nf d) = inode_table s"
  "root_directory (add_journal_entry s operation (Some f) nf d) = root_directory s"
  by (simp_all add: add_journal_entry_def time_NULL_def save_journal_def)

lemma add_journal_entry_log:
  "journal_log (host (add_journal_entry s operation (Some f) nf d)) =
     (if journal_log_writable (host s)
      then Some (concat (map journal_line
             (filter (\<lambda>e. je_timestamp e \<noteq> 0)
                (take JOURNAL_SIZE (journal (add_journal_entry s operation (Some f) nf d))))))
      else journal_log (host s))"
  by (simp add: add_journal_entry_def time_NULL_def save_journal_def)

lemma add_journal_entry_tables:
  "superblock (add_journal_entry s operation fname nf d) = superblock s"
  "inode_table (add_journal_entry s operation fname nf d) = inode_table s"
  "root_directory (add_journal_entry s operation fname nf d) = root_directory s"
  by (cases fname; simp add: add_journal_entry_def time_NULL_def save_journal_def)+

lemma add_journal_entry_host:
  "host_files (host (add_journal_entry s operation fname nf d)) = host_files (host s)"
  "host_denied (host (add_journal_entry s operation fname nf d)) = host_denied (host s)"
  "clock (host (add_journal_entry s operation fname nf d)) = clock (host s)"
  "TEST_FOLDER_PATH (add_journal_entry s operation fname nf d) = TEST_FOLDER_PATH s"
  by (cases fname; simp add: add_journal_entry_def time_NULL_def save_journal_def)+

lemma add_journal_entry_snapshot:
  "snapshot (host (add_journal_entry s operation fname nf d)) = snapshot (host s)"
  by (cases fname; simp add: add_journal_entry_def time_NULL_def save_journal_def)

lemma append_all_snoc:
  "append_all s (rs @ [(operation, f, nf, d)]) =
     add_journal_entry (append_all s rs) operation (Some f) nf d"
  by (induction s rs rule: append_all.induct) simp_all

lemma stamped_snoc_old: "j < length rs \<Longrightarrow> stamped s (rs @ [r]) j = stamped s rs j"
  by (simp add: stamped_def nth_append)

lemma stamped_snoc_new:
  "stamped s (rs @ [(operation, f, nf, d)]) (length rs) =
     stored_entry operation f nf d (clock (host s) (time_calls (host s) + length rs))"
  by (simp add: stamped_def)

lemma stamped_timestamp: "je_timestamp (stamped s rs j) = clock (host s) (time_calls (host s) + j)"
  by (cases "rs ! j") (simp add: stamped_def stored_entry_def)

lemma ring_slot_new:
  fixes n N :: nat
  assumes "0 < N"
  shows "n mod N + N * ((Suc n - 1 - n mod N) div N) = n"
proof -
  have "n - n mod N = N * (n div N)" by (simp add: minus_mod_eq_mult_div)
  with assms show ?thesis by simp
qed

lemma ring_slot_old:
  fixes n N k :: nat
  assumes "0 < N" "k < N" "k \<noteq> n mod N" "k < n"
  shows "(Suc n - 1 - k) div N = (n - 1 - k) div N"
proof -
  have "(n - k) mod N \<noteq> 0"
  proof
    assume "(n - k) mod N = 0"
    then have "N dvd n - k" by auto
    then have "(n - k + k) mod N = k mod N" by (metis mod_add_left_eq mod_0_imp_dvd dvd_imp_mod_0 add_0 mod_mod_trivial)
    with assms show False by simp
  qed
  from div_pred_nat [OF this] show ?thesis by simp
qed

lemma append_all_ring:
  assumes len: "length (journal s) = JOURNAL_SIZE" and idx: "journal_index s = 0"
  shows "length (journal (append_all s rs)) = JOURNAL_SIZE
     \<and> journal_index (append_all s rs) = length rs mod JOURNAL_SIZE
     \<and> time_calls (host (append_all s rs)) = time_calls (host s) + length rs
     \<and> clock (host (append_all s rs)) = clock (host s)
     \<and> journal_log_writable (host (append_all s rs)) = journal_log_writable (host s)
     \<and> (\<forall>k<JOURNAL_SIZE. journal (append_all s rs) ! k =
           (if k < length rs
            then stamped s rs (k + JOURNAL_SIZE * ((length rs - 1 - k) div JOURNAL_SIZE))
            else journal s ! k))"
proof (induction rs rule: rev_induct)
  case Nil
  from len idx show ?case by simp
next
  case (snoc r rs)
  obtain operation f nf d where r: "r = (operation, f, nf, d)" by (cases r) auto
  let ?s' = "append_all s rs"
  let ?s'' = "append_all s (rs @ [r])"
  let ?n = "length rs"
  have N: "0 < JOURNAL_SIZE" by (simp add: JOURNAL_SIZE_def)
  from snoc have ih: "length (journal ?s') = JOURNAL_SIZE"
    "journal_index ?s' = ?n mod JOURNAL_SIZE"
    "time_calls (host ?s') = time_calls (host s) + ?n"
    "clock (host ?s') = clock (host s)"
    "journal_log_writable (host ?s') = journal_log_writable (host s)"
    and slots: "\<And>k. k < JOURNAL_SIZE \<Longrightarrow> journal ?s' ! k =
           (if k < ?n then stamped s rs (k + JOURNAL_SIZE * ((?n - 1 - k) div JOURNAL_SIZE))
            else journal s ! k)"
    by auto
  have step: "?s'' = add_journal_entry ?s' operation (Some f) nf d"
    by (simp add: r append_all_snoc)
  have j'': "journal ?s'' = (journal ?s')[?n mod JOURNAL_SIZE := stamped s (rs @ [r]) ?n]"
    unfolding step by (simp add: add_journal_entry_fields ih r stamped_snoc_new)
  have a: "length (journal ?s'') = JOURNAL_SIZE" by (simp add: j'' ih)
  have b: "journal_index ?s'' = length (rs @ [r]) mod JOURNAL_SIZE"
    unfolding step by (simp add: add_journal_entry_fields ih mod_Suc_eq)
  have c: "time_calls (host ?s'') = time_calls (host s) + length (rs @ [r])"
    unfolding step by (simp add: add_journal_entry_fields ih)
  have d: "clock (host ?s'') = clock (host s)"
    unfolding step by (simp add: add_journal_entry_fields ih)
  have e: "journal_log_writable (host ?s'') = journal_log_writable (host s)"
    unfolding step by (simp add: add_journal_entry_fields ih)
  have g: "journal ?s'' ! k =
           (if k < length (rs @ [r])
            then stamped s (rs @ [r]) (k + JOURNAL_SIZE * ((length (rs @ [r]) - 1 - k) div JOURNAL_SIZE))
            else journal s ! k)" if k: "k < JOURNAL_SIZE" for k
  proof (cases "k = ?n mod JOURNAL_SIZE")
    case True
    have "k \<le> ?n" unfolding True by simp
    moreover have "k + JOURNAL_SIZE * ((Suc ?n - 1 - k) div JOURNAL_SIZE) = ?n"
      unfolding True by (rule ring_slot_new [OF N])
    moreover have "journal ?s'' ! k = stamped s (rs @ [r]) ?n"
      using k True by (simp add: j'' ih)
    ultimately show ?thesis by simp
  next
    case False
    then have other: "journal ?s'' ! k = journal ?s' ! k" by (simp add: j'')
    show ?thesis
    proof (cases "k < ?n")
      case True
      have same: "(Suc ?n - 1 - k) div JOURNAL_SIZE = (?n - 1 - k) div JOURNAL_SIZE"
        by (rule ring_slot_old [OF N k False True])
      have "JOURNAL_SIZE * ((?n - 1 - k) div JOURNAL_SIZE) \<le> ?n - 1 - k" by simp
      with True have "k + JOURNAL_SIZE * ((?n - 1 - k) div JOURNAL_SIZE) < ?n" by linarith
      then have "stamped s (rs @ [r]) (k + JOURNAL_SIZE * ((?n - 1 - k) div JOURNAL_SIZE))
                 = stamped s rs (k + JOURNAL_SIZE * ((?n - 1 - k) div JOURNAL_SIZE))"
        by (rule stamped_snoc_old)
      with True same other slots [OF k] show ?thesis by simp
    next
      case notless: False
      have "k \<noteq> ?n"
      proof
        assume "k = ?n"
        with k have "?n mod JOURNAL_SIZE = k" by simp
        with False show False by simp
      qed
      with notless have "\<not> k < length (rs @ [r])" by simp
      with notless other slots [OF k] show ?thesis by simp
    qed
  qed
  from a b c d e g show ?case by blast
qed

lemma append_all_wraparound:
  assumes len: "length (journal s) = JOURNAL_SIZE" and idx: "journal_index s = 0"
    and n: "length rs = JOURNAL_SIZE + 5" and clk: "\<forall>t. clock (host s) t \<noteq> 0"
  shows "length (journal (append_all s rs)) = JOURNAL_SIZE"
    and "journal_index (append_all s rs) = 5"
    and "k < 5 \<Longrightarrow> journal (append_all s rs) ! k = stamped s rs (JOURNAL_SIZE + k)"
    and "5 \<le> k \<Longrightarrow> k < JOURNAL_SIZE \<Longrightarrow> journal (append_all s rs) ! k = stamped s rs k"
    and "filter (\<lambda>e. je_timestamp e \<noteq> 0) (journal (append_all s rs)) = journal (append_all s rs)"
    and "journal_log_writable (host s) \<Longrightarrow>
           journal_log (host (append_all s rs))
             = Some (concat (map journal_line (journal (append_all s rs))))"
proof -
  let ?s' = "append_all s rs"
  note ring = append_all_ring [OF len idx, of rs]
  from ring show l: "length (journal ?s') = JOURNAL_SIZE" by blast
  from ring n show "journal_index ?s' = 5" by (simp add: JOURNAL_SIZE_def)
  from ring n have slot: "journal ?s' ! k =
      stamped s rs (k + JOURNAL_SIZE * ((JOURNAL_SIZE + 4 - k) div JOURNAL_SIZE))"
    if "k < JOURNAL_SIZE" for k
    using that by (simp add: add.commute)
  {
    assume k: "k < 5"
    then have "(JOURNAL_SIZE + 4 - k) div JOURNAL_SIZE = 1"
      by (simp add: JOURNAL_SIZE_def)
    moreover from k have "k < JOURNAL_SIZE" by (simp add: JOURNAL_SIZE_def)
    ultimately show "journal ?s' ! k = stamped s rs (JOURNAL_SIZE + k)"
      using slot [of k] by (simp add: add.commute)
  }
  {
    assume k: "5 \<le> k" "k < JOURNAL_SIZE"
    then have "(JOURNAL_SIZE + 4 - k) div JOURNAL_SIZE = 0" by simp
    with k show "journal ?s' ! k = stamped s rs k" using slot [of k] by simp
  }
  have nonzero: "\<forall>e \<in> set (journal ?s'). je_timestamp e \<noteq> 0"
  proof
    fix e assume "e \<in> set (journal ?s')"
    then obtain k where "k < length (journal ?s')" "e = journal ?s' ! k"
      by (auto simp: in_set_conv_nth)
    with l slot [of k] clk show "je_timestamp e \<noteq> 0" by (simp add: stamped_timestamp)
  qed
  then show full: "filter (\<lambda>e. je_timestamp e \<noteq> 0) (journal ?s') = journal ?s'"
    by (simp add: filter_True)
  {
    assume w: "journal_log_writable (host s)"
    from n have "rs \<noteq> []" by auto
    then obtain rs' r where rs: "rs = rs' @ [r]" by (metis rev_exhaust)
    obtain operation f nf d where r: "r = (operation, f, nf, d)" by (cases r) auto
    have step: "?s' = add_journal_entry (append_all s rs') operation (Some f) nf d"
      by (simp add: rs r append_all_snoc)
    from append_all_ring [OF len idx, of rs'] w
    have w': "journal_log_writable (host (append_all s rs'))" by simp
    have "journal_log (host ?s') =
        Some (concat (map journal_line
           (filter (\<lambda>e. je_timestamp e \<noteq> 0) (take JOURNAL_SIZE (journal ?s')))))"
      using w' add_journal_entry_log [of "append_all s rs'" operation f nf d]
      unfolding step by simp
    with l full show "journal_log (host ?s') = Some (concat (map journal_line (journal ?s')))"
      by simp
  }
qed

text \<open>
  C10. An append with a filename writes the entry into the slot at the ring index,
  stamped with the clock reading of the call, leaves the other slots alone, moves the
  index to \<open>(index + 1) mod JOURNAL_SIZE\<close> and, when \<open>journal.log\<close> can be opened,
  rewrites it at once with one line per slot whose timestamp is not zero. After
  \<open>JOURNAL_SIZE + 5\<close> appends from ring index 0, on a clock that never reads 0, all
  \<open>JOURNAL_SIZE\<close> slots are non-empty, slots 0 to 4 hold the last five requests (the
  first five are overwritten), the slots from 5 on hold the request of their own
  number, and the index is 5.
\<close>

theorem add_journal_entry_ring_buffer:
  "(journal_index s < length (journal s)
    \<longrightarrow> journal (add_journal_entry s operation (Some f) nf d) ! journal_index s =
          \<lparr>je_operation = Some operation,
           je_filename = take (MAX_FILENAME_LEN - 1) f,
           je_new_filename = (case nf of None \<Rightarrow> [] | Some n \<Rightarrow> take (MAX_FILENAME_LEN - 1) n),
           je_data = (case d of None \<Rightarrow> [] | Some x \<Rightarrow> take (BLOCK_SIZE - 1) x),
           je_timestamp = clock (host s) (time_calls (host s))\<rparr>
      \<and> (\<forall>k. k \<noteq> journal_index s \<longrightarrow>
             journal (add_journal_entry s operation (Some f) nf d) ! k = journal s ! k)
      \<and> journal_index (add_journal_entry s operation (Some f) nf d)
          = (journal_index s + 1) mod JOURNAL_SIZE
      \<and> (journal_log_writable (host s) \<longrightarrow>
            journal_log (host (add_journal_entry s operation (Some f) nf d)) =
              Some (concat (map journal_line
                (filter (\<lambda>e. je_timestamp e \<noteq> 0)
                   (take JOURNAL_SIZE (journal (add_journal_entry s operation (Some f) nf d))))))))
   \<and> (length (journal s) = JOURNAL_SIZE \<and> journal_index s = 0
      \<and> length rs = JOURNAL_SIZE + 5 \<and> (\<forall>t. clock (host s) t \<noteq> 0)
    \<longrightarrow> length (journal (append_all s rs)) = JOURNAL_SIZE
      \<and> length (filter (\<lambda>e. je_timestamp e \<noteq> 0) (journal (append_all s rs))) = JOURNAL_SIZE
      \<and> (\<forall>k<5. journal (append_all s rs) ! k = stamped s rs (JOURNAL_SIZE + k))
      \<and> (\<forall>k. 5 \<le> k \<and> k < JOURNAL_SIZE \<longrightarrow> journal (append_all s rs) ! k = stamped s rs k)
      \<and> journal_index (append_all s rs) = 5
      \<and> (journal_log_writable (host s) \<longrightarrow>
            journal_log (host (append_all s rs))
              = Some (concat (map journal_line (journal (append_all s rs))))))"
proof (intro conjI impI allI)
  assume "journal_index s < length (journal s)"
  then show "journal (add_journal_entry s operation (Some f) nf d) ! journal_index s =
          \<lparr>je_operation = Some operation,
           je_filename = take (MAX_FILENAME_LEN - 1) f,
           je_new_filename = (case nf of None \<Rightarrow> [] | Some n \<Rightarrow> take (MAX_FILENAME_LEN - 1) n),
           je_data = (case d of None \<Rightarrow> [] | Some x \<Rightarrow> take (BLOCK_SIZE - 1) x),
           je_timestamp = clock (host s) (time_calls (host s))\<rparr>"
    by (simp add: add_journal_entry_fields stored_entry_def)
next
  fix k assume "k \<noteq> journal_index s"
  then show "journal (add_journal_entry s operation (Some f) nf d) ! k = journal s ! k"
    by (simp add: add_journal_entry_fields)
next
  show "journal_index (add_journal_entry s operation (Some f) nf d)
          = (journal_index s + 1) mod JOURNAL_SIZE"
    by (simp add: add_journal_entry_fields)
next
  assume "journal_log_writable (host s)"
  then show "journal_log (host (add_journal_entry s operation (Some f) nf d)) =
              Some (concat (map journal_line
                (filter (\<lambda>e. je_timestamp e \<noteq> 0)
                   (take JOURNAL_SIZE (journal (add_journal_entry s operation (Some f) nf d))))))"
    using add_journal_entry_log [of s operation f nf d] by simp
next
  assume a: "length (journal s) = JOURNAL_SIZE \<and> journal_index s = 0
      \<and> length rs = JOURNAL_SIZE + 5 \<and> (\<forall>t. clock (host s) t \<noteq> 0)"
  then have len: "length (journal s) = JOURNAL_SIZE" and idx: "journal_index s = 0"
    and n: "length rs = JOURNAL_SIZE + 5" and clk: "\<forall>t. clock (host s) t \<noteq> 0" by auto
  note w = append_all_wraparound [OF len idx n clk]
  show "length (journal (append_all s rs)) = JOURNAL_SIZE" by (rule w(1))
  show "length (filter (\<lambda>e. je_timestamp e \<noteq> 0) (journal (append_all s rs))) = JOURNAL_SIZE"
    by (simp only: w(5) w(1))
  show "journal_index (append_all s rs) = 5" by (rule w(2))
  {
    fix k :: nat assume "k < 5"
    then show "journal (append_all s rs) ! k = stamped s rs (JOURNAL_SIZE + k)" by (rule w(3))
  }
  {
    fix k :: nat assume "5 \<le> k \<and> k < JOURNAL_SIZE"
    then show "journal (append_all s rs) ! k = stamped s rs k" using w(4) by blast
  }
  {
    assume "journal_log_writable (host s)"
    then show "journal_log (host (append_all s rs))
              = Some (concat (map journal_line (journal (append_all s rs))))" by (rule w(6))
  }
qed

theorem add_journal_entry_ring_buffer_witness:
  "journal (add_journal_entry fresh_state CREATE (Some ''a.txt'') None None) ! 0 =
      \<lparr>je_operation = Some CREATE, je_filename = ''a.txt'', je_new_filename = [],
       je_data = [], je_timestamp = 1700000000\<rparr>
   \<and> journal_index (add_journal_entry fresh_state CREATE (Some ''a.txt'') None None) = 1
   \<and> journal_log (host (add_journal_entry fresh_state CREATE (Some ''a.txt'') None None))
       = Some (''1700000000 CREATED a.txt  '' @ [CHR 0x0A])
   \<and> length (filter (\<lambda>e. je_timestamp e \<noteq> 0) (journal (append_all fresh_state wrap_requests)))
       = 1024
   \<and> journal_index (append_all fresh_state wrap_requests) = 5
   \<and> je_timestamp (journal (append_all fresh_state wrap_requests) ! 0) = 1700001024
   \<and> je_timestamp (journal (append_all fresh_state wrap_requests) ! 4) = 1700001028
   \<and> je_timestamp (journal (append_all fresh_state wrap_requests) ! 5) = 1700000005"
proof -
  let ?s1 = "add_journal_entry fresh_state CREATE (Some ''a.txt'') None None"
  let ?e = "\<lparr>je_operation = Some CREATE, je_filename = ''a.txt'', je_new_filename = [],
       je_data = [], je_timestamp = 1700000000\<rparr>"
  have N: "0 < JOURNAL_SIZE" by (simp add: JOURNAL_SIZE_def)
  have h1: "journal_index fresh_state < length (journal fresh_state)"
    by (simp add: fresh_state_journal JOURNAL_SIZE_def)
  have h2: "length (journal fresh_state) = JOURNAL_SIZE \<and> journal_index fresh_state = 0
      \<and> length wrap_requests = JOURNAL_SIZE + 5 \<and> (\<forall>t. clock (host fresh_state) t \<noteq> 0)"
    by (simp add: fresh_state_journal wrap_requests_def example_host_def)
  have w: "journal_log_writable (host fresh_state)"
    by (simp add: fresh_state_journal example_host_def)
  note inst = add_journal_entry_ring_buffer [where s = fresh_state and operation = CREATE
      and f = "''a.txt''" and nf = None and d = None and rs = wrap_requests]
  from inst h1 w have a1: "journal ?s1 ! journal_index fresh_state =
          \<lparr>je_operation = Some CREATE,
           je_filename = take (MAX_FILENAME_LEN - 1) ''a.txt'',
           je_new_filename = (case None of None \<Rightarrow> [] | Some n \<Rightarrow> take (MAX_FILENAME_LEN - 1) n),
           je_data = (case None of None \<Rightarrow> [] | Some x \<Rightarrow> take (BLOCK_SIZE - 1) x),
           je_timestamp = clock (host fresh_state) (time_calls (host fresh_state))\<rparr>"
    and a2: "journal_index ?s1 = (journal_index fresh_state + 1) mod JOURNAL_SIZE"
    and a3: "journal_log (host ?s1) =
              Some (concat (map journal_line
                (filter (\<lambda>e. je_timestamp e \<noteq> 0) (take JOURNAL_SIZE (journal ?s1)))))"
    and others: "\<forall>k. k \<noteq> journal_index fresh_state \<longrightarrow> journal ?s1 ! k = journal fresh_state ! k"
    by blast+
  from inst h2 w
  have b1: "length (filter (\<lambda>e. je_timestamp e \<noteq> 0) (journal (append_all fresh_state wrap_requests)))
      = JOURNAL_SIZE"
    and b2: "journal_index (append_all fresh_state wrap_requests) = 5"
    and b3: "\<forall>k<5. journal (append_all fresh_state wrap_requests) ! k
               = stamped fresh_state wrap_requests (JOURNAL_SIZE + k)"
    and b4: "\<forall>k. 5 \<le> k \<and> k < JOURNAL_SIZE \<longrightarrow>
               journal (append_all fresh_state wrap_requests) ! k = stamped fresh_state wrap_requests k"
    by blast+
  have c1: "journal ?s1 ! 0 = ?e"
    using a1 by (simp add: fresh_state_journal example_host_def MAX_FILENAME_LEN_def)
  have c2: "journal_index ?s1 = 1"
    using a2 by (simp add: fresh_state_journal JOURNAL_SIZE_def)
  have "journal ?s1 = ?e # replicate (JOURNAL_SIZE - 1) zero_journal_entry"
    using N by (simp add: add_journal_entry_fields fresh_state_journal replicate_update_0
        stored_entry_def example_host_def MAX_FILENAME_LEN_def)
  moreover have "take JOURNAL_SIZE (journal ?s1) = journal ?s1"
    by (simp add: add_journal_entry_fields fresh_state_journal)
  moreover have "filter (\<lambda>e. je_timestamp e \<noteq> 0) (replicate (JOURNAL_SIZE - 1) zero_journal_entry) = []"
    by (rule filter_replicate_none) (simp add: zero_journal_entry_def)
  ultimately have "filter (\<lambda>e. je_timestamp e \<noteq> 0) (take JOURNAL_SIZE (journal ?s1)) = [?e]"
    by simp
  with a3 have c3: "journal_log (host ?s1) = Some (''1700000000 CREATED a.txt  '' @ [CHR 0x0A])"
    by (simp add: journal_line_def dec_long_example operation_to_string_def)
  have d1: "je_timestamp (journal (append_all fresh_state wrap_requests) ! 0) = 1700001024"
    using b3 by (simp add: stamped_timestamp fresh_state_journal example_host_def JOURNAL_SIZE_def)
  have d2: "je_timestamp (journal (append_all fresh_state wrap_requests) ! 4) = 1700001028"
    using b3 by (simp add: stamped_timestamp fresh_state_journal example_host_def JOURNAL_SIZE_def)
  have d3: "je_timestamp (journal (append_all fresh_state wrap_requests) ! 5) = 1700000005"
    using b4 by (simp add: stamped_timestamp fresh_state_journal example_host_def JOURNAL_SIZE_def)
  from b1 have b1': "length (filter (\<lambda>e. je_timestamp e \<noteq> 0)
      (journal (append_all fresh_state wrap_requests))) = 1024"
    by (simp add: JOURNAL_SIZE_def)
  from c1 c2 c3 b1' b2 d1 d2 d3 show ?thesis by blast
qed

section \<open>File operations: lemmas and claims C4, C7\<close>

lemma create_file_fopen_refused:
  assumes nex: "\<not> file_exists s path"
    and c: "free_inode_count (superblock s) \<noteq> 0" and k: "k < INODE_TABLE_SIZE"
    and z: "i_size (inode_table s ! k) = 0" and first: "\<forall>j<k. i_size (inode_table s ! j) \<noteq> 0"
    and denied: "full_path s path \<in> host_denied (host s)"
  shows "create_file s path d =
           (-1, add_directory_entry (snd (create_inode s d 0x1FF (current_user_id s) (current_group_id s)))
                  path (int k))"
proof -
  note ci = create_inode_slot [OF c k z first, of d "0x1FF" "current_user_id s" "current_group_id s"]
  show ?thesis using nex denied
    by (simp add: create_file_def ci Let_def host_fopen_w_def add_directory_entry_def full_path_def)
qed

lemma create_file_success:
  assumes nex: "\<not> file_exists s path"
    and c: "free_inode_count (superblock s) \<noteq> 0" and k: "k < INODE_TABLE_SIZE"
    and z: "i_size (inode_table s ! k) = 0" and first: "\<forall>j<k. i_size (inode_table s ! j) \<noteq> 0"
    and allowed: "full_path s path \<notin> host_denied (host s)"
  shows "create_file s path d =
           (0, add_journal_entry
                 ((add_directory_entry
                     (snd (create_inode s d 0x1FF (current_user_id s) (current_group_id s)))
                     path (int k))
                  \<lparr>host := (host s)\<lparr>time_calls := Suc (time_calls (host s)),
                                    host_files := (host_files (host s))(full_path s path \<mapsto> [])\<rparr>\<rparr>)
                 CREATE (Some path) None None)"
proof -
  note ci = create_inode_slot [OF c k z first, of d "0x1FF" "current_user_id s" "current_group_id s"]
  show ?thesis using nex allowed
    by (simp add: create_file_def ci Let_def host_fopen_w_def add_directory_entry_def full_path_def)
qed

lemma create_directory_host_failure:
  "full_path s path \<in> host_denied (host s) \<Longrightarrow> create_directory s path = (-1, s)"
  by (simp add: create_directory_def host_mkdir_def)

lemma denied_state_fields:
  "inode_table denied_state = inode_table fresh_state"
  "superblock denied_state = superblock fresh_state"
  "root_directory denied_state = root_directory fresh_state"
  "journal denied_state = journal fresh_state"
  "TEST_FOLDER_PATH denied_state = TEST_FOLDER_PATH fresh_state"
  "host_files (host denied_state) = Map.empty"
  "host_denied (host denied_state) = {''C:/tests/a.txt''}"
  "full_path denied_state ''a.txt'' = ''C:/tests/a.txt''"
  by (simp_all add: denied_state_def full_path_def fresh_state_journal example_host_def
      MAX_FILENAME_LEN_def)

text \<open>
  C4 (a create request whose host step fails leaves the inode table, the free-inode
  counter and the directory as if nothing had happened). \<open>create_file\<close> takes the
  inode and writes the directory entry before it calls \<open>fopen\<close>: when \<open>fopen\<close> fails
  it returns \<open>-1\<close>, and the slot is initialised, the counter is one lower and the
  directory has one more entry. The journal, the log and the host files are
  unchanged.
\<close>

theorem create_file_host_failure_changes_tables:
  "\<not> file_exists s path \<and> free_inode_count (superblock s) \<noteq> 0 \<and> k < INODE_TABLE_SIZE
   \<and> length (inode_table s) = INODE_TABLE_SIZE
   \<and> i_size (inode_table s ! k) = 0 \<and> (\<forall>j<k. i_size (inode_table s ! j) \<noteq> 0)
   \<and> entry_count (root_directory s) < length (entries (root_directory s))
   \<and> full_path s path \<in> host_denied (host s)
   \<longrightarrow>
     fst (create_file s path d) = -1
   \<and> free_inode_count (superblock (snd (create_file s path d))) = free_inode_count (superblock s) - 1
   \<and> inode_table (snd (create_file s path d)) ! k =
       init_inode (inode_table s ! k) d 0x1FF (current_user_id s) (current_group_id s)
         (clock (host s) (time_calls (host s)))
   \<and> entry_count (root_directory (snd (create_file s path d))) = Suc (entry_count (root_directory s))
   \<and> entries (root_directory (snd (create_file s path d))) ! entry_count (root_directory s)
       = \<lparr>de_name = path, inode_number = int k\<rparr>
   \<and> journal (snd (create_file s path d)) = journal s
   \<and> journal_index (snd (create_file s path d)) = journal_index s
   \<and> journal_log (host (snd (create_file s path d))) = journal_log (host s)
   \<and> host_files (host (snd (create_file s path d))) = host_files (host s)"
proof (intro impI)
  assume a: "\<not> file_exists s path \<and> free_inode_count (superblock s) \<noteq> 0 \<and> k < INODE_TABLE_SIZE
   \<and> length (inode_table s) = INODE_TABLE_SIZE
   \<and> i_size (inode_table s ! k) = 0 \<and> (\<forall>j<k. i_size (inode_table s ! j) \<noteq> 0)
   \<and> entry_count (root_directory s) < length (entries (root_directory s))
   \<and> full_path s path \<in> host_denied (host s)"
  then have nex: "\<not> file_exists s path"
    and c: "free_inode_count (superblock s) \<noteq> 0" and k: "k < INODE_TABLE_SIZE"
    and z: "i_size (inode_table s ! k) = 0" and first: "\<forall>j<k. i_size (inode_table s ! j) \<noteq> 0"
    and denied: "full_path s path \<in> host_denied (host s)"
    and kl: "k < length (inode_table s)"
    and room: "entry_count (root_directory s) < length (entries (root_directory s))"
    by auto
  note ci = create_inode_slot [OF c k z first, of d "0x1FF" "current_user_id s" "current_group_id s"]
  note cf = create_file_fopen_refused [OF nex c k z first denied, of d]
  from kl room
  show "fst (create_file s path d) = -1
   \<and> free_inode_count (superblock (snd (create_file s path d))) = free_inode_count (superblock s) - 1
   \<and> inode_table (snd (create_file s path d)) ! k =
       init_inode (inode_table s ! k) d 0x1FF (current_user_id s) (current_group_id s)
         (clock (host s) (time_calls (host s)))
   \<and> entry_count (root_directory (snd (create_file s path d))) = Suc (entry_count (root_directory s))
   \<and> entries (root_directory (snd (create_file s path d))) ! entry_count (root_directory s)
       = \<lparr>de_name = path, inode_number = int k\<rparr>
   \<and> journal (snd (create_file s path d)) = journal s
   \<and> journal_index (snd (create_file s path d)) = journal_index s
   \<and> journal_log (host (snd (create_file s path d))) = journal_log (host s)
   \<and> host_files (host (snd (create_file s path d))) = host_files (host s)"
    by (simp add: cf ci add_directory_entry_def)
qed

theorem create_file_host_failure_changes_tables_witness:
  "fst (create_file denied_state ''a.txt'' 0) = -1
   \<and> free_inode_count (superblock denied_state) = 128
   \<and> free_inode_count (superblock (snd (create_file denied_state ''a.txt'' 0))) = 127
   \<and> mode (inode_table denied_state ! 0) = 0
   \<and> mode (inode_table (snd (create_file denied_state ''a.txt'' 0)) ! 0) = 0x1FF
   \<and> entry_count (root_directory denied_state) = 0
   \<and> entry_count (root_directory (snd (create_file denied_state ''a.txt'' 0))) = 1
   \<and> entries (root_directory (snd (create_file denied_state ''a.txt'' 0))) ! 0
       = \<lparr>de_name = ''a.txt'', inode_number = 0\<rparr>
   \<and> journal (snd (create_file denied_state ''a.txt'' 0)) = journal denied_state
   \<and> host_files (host (snd (create_file denied_state ''a.txt'' 0))) = Map.empty"
proof -
  have h: "\<not> file_exists denied_state ''a.txt'' \<and> free_inode_count (superblock denied_state) \<noteq> 0
   \<and> 0 < INODE_TABLE_SIZE
   \<and> length (inode_table denied_state) = INODE_TABLE_SIZE
   \<and> i_size (inode_table denied_state ! 0) = 0
   \<and> (\<forall>j<0. i_size (inode_table denied_state ! j) \<noteq> 0)
   \<and> entry_count (root_directory denied_state) < length (entries (root_directory denied_state))
   \<and> full_path denied_state ''a.txt'' \<in> host_denied (host denied_state)"
    by (simp add: denied_state_fields file_exists_def fresh_state_inode_table
        fresh_state_free_inode_count fresh_state_journal INODE_TABLE_SIZE_def zero_inode_def
        MAX_FILES_def)
  from create_file_host_failure_changes_tables [where s = denied_state and path = "''a.txt''"
      and k = 0 and d = 0] h
  have r: "fst (create_file denied_state ''a.txt'' 0) = -1"
    "free_inode_count (superblock (snd (create_file denied_state ''a.txt'' 0)))
       = free_inode_count (superblock denied_state) - 1"
    "inode_table (snd (create_file denied_state ''a.txt'' 0)) ! 0 =
       init_inode (inode_table denied_state ! 0) 0 0x1FF (current_user_id denied_state)
         (current_group_id denied_state) (clock (host denied_state) (time_calls (host denied_state)))"
    "entry_count (root_directory (snd (create_file denied_state ''a.txt'' 0)))
       = Suc (entry_count (root_directory denied_state))"
    "entries (root_directory (snd (create_file denied_state ''a.txt'' 0)))
         ! entry_count (root_directory denied_state)
       = \<lparr>de_name = ''a.txt'', inode_number = int 0\<rparr>"
    "journal (snd (create_file denied_state ''a.txt'' 0)) = journal denied_state"
    "host_files (host (snd (create_file denied_state ''a.txt'' 0))) = host_files (host denied_state)"
    by blast+
  have m: "mode (inode_table (snd (create_file denied_state ''a.txt'' 0)) ! 0) = 0x1FF"
    by (simp add: r(3) init_inode_def)
  have e: "entries (root_directory (snd (create_file denied_state ''a.txt'' 0))) ! 0
       = \<lparr>de_name = ''a.txt'', inode_number = 0\<rparr>"
    using r(5) by (simp add: denied_state_fields fresh_state_journal)
  show ?thesis
    using r(1,2,4,6,7) m e
    by (simp add: denied_state_fields fresh_state_inode_table fresh_state_free_inode_count
        fresh_state_journal INODE_TABLE_SIZE_def zero_inode_def)
qed

lemma created_state_eq:
  "create_file fresh_state ''a.txt'' 0 =
     (0, add_journal_entry
           ((add_directory_entry (snd (create_inode fresh_state 0 0x1FF 11 10)) ''a.txt'' 0)
            \<lparr>host := (host fresh_state)\<lparr>time_calls := Suc (time_calls (host fresh_state)),
                 host_files := (host_files (host fresh_state))(''C:/tests/a.txt'' \<mapsto> [])\<rparr>\<rparr>)
           CREATE (Some ''a.txt'') None None)"
proof -
  have nex: "\<not> file_exists fresh_state ''a.txt''"
    by (simp add: file_exists_def fresh_state_journal example_host_def)
  have c: "free_inode_count (superblock fresh_state) \<noteq> 0"
    by (simp add: fresh_state_free_inode_count INODE_TABLE_SIZE_def)
  have k: "0 < INODE_TABLE_SIZE" by (simp add: INODE_TABLE_SIZE_def)
  have z: "i_size (inode_table fresh_state ! 0) = 0"
    by (simp add: fresh_state_inode_table INODE_TABLE_SIZE_def zero_inode_def)
  have first: "\<forall>j<0. i_size (inode_table fresh_state ! j) \<noteq> 0" by simp
  have allowed: "full_path fresh_state ''a.txt'' \<notin> host_denied (host fresh_state)"
    by (simp add: fresh_state_journal example_host_def)
  from create_file_success [OF nex c k z first allowed, of 0] show ?thesis
    by (simp add: full_path_fresh fresh_state_journal)
qed

lemma created_state_fields:
  "inode_table created_state =
     (replicate INODE_TABLE_SIZE zero_inode)[0 := init_inode zero_inode 0 0x1FF 11 10 1700000000]"
  "superblock created_state = (superblock fresh_state)\<lparr>free_inode_count := 127\<rparr>"
  "root_directory created_state =
     \<lparr>entries = (replicate MAX_FILES zero_directory_entry)[0 := \<lparr>de_name = ''a.txt'', inode_number = 0\<rparr>],
      entry_count = 1\<rparr>"
  "host_files (host created_state) = [''C:/tests/a.txt'' \<mapsto> []]"
  "host_denied (host created_state) = {}"
  "TEST_FOLDER_PATH created_state = ''C:/tests/''"
  by (simp_all add: created_state_def created_state_eq add_journal_entry_tables
      add_journal_entry_host add_directory_entry_def fresh_state_create fresh_state_journal
      example_host_def)

lemma allocate_block_created:
  "allocate_block created_state =
     (0, created_state\<lparr>superblock := (superblock created_state)
            \<lparr>free_block_bitmap := (replicate NUM_BLOCKS 0)[0 := 1], free_blocks := 1022\<rparr>\<rparr>)"
proof -
  have "first_free_block (replicate NUM_BLOCKS 0) 0 = Some 0"
    by (subst first_free_block.simps) (simp add: NUM_BLOCKS_def)
  then show ?thesis
    by (simp add: allocate_block_def created_state_fields fresh_state_bitmap)
qed

lemma held_state_fields:
  "inode_table held_state ! 0 =
     (init_inode zero_inode 0 0x1FF 11 10 1700000000)
       \<lparr>direct_blocks := (replicate DIRECT_BLOCKS (-1))[0 := 0]\<rparr>"
  "length (inode_table held_state) = INODE_TABLE_SIZE"
  "free_block_bitmap (superblock held_state) = (replicate NUM_BLOCKS 0)[0 := 1]"
  "free_blocks (superblock held_state) = 1022"
  "free_inode_count (superblock held_state) = 127"
  "root_directory held_state =
     \<lparr>entries = (replicate MAX_FILES zero_directory_entry)[0 := \<lparr>de_name = ''a.txt'', inode_number = 0\<rparr>],
      entry_count = 1\<rparr>"
  "host_files (host held_state) = [''C:/tests/a.txt'' \<mapsto> []]"
  "host_denied (host held_state) = {}"
  "TEST_FOLDER_PATH held_state = ''C:/tests/''"
  by (simp_all add: held_state_def allocate_block_created created_state_fields init_inode_def
      INODE_TABLE_SIZE_def)

lemma held_used_blocks_alt:
  "held_used_blocks sb inode =
     {x. x < NUM_BLOCKS \<and> int x \<in> set (direct_blocks inode @ [index_block inode])
         \<and> free_block_bitmap sb ! x = 1}"
  by (auto simp: held_used_blocks_def)

lemma held_state_blocks:
  "held_used_blocks (superblock held_state) (inode_table held_state ! 0) = {0}"
proof -
  have "((replicate NUM_BLOCKS (0::int))[0 := 1]) ! b = 1 \<longleftrightarrow> b = 0" if "b < NUM_BLOCKS" for b
    using that by (cases b) simp_all
  moreover have "int 0 \<in> set ((replicate DIRECT_BLOCKS (-1))[0 := 0])"
    by (simp add: DIRECT_BLOCKS_def replicate_update_0)
  moreover have "0 < NUM_BLOCKS" by (simp add: NUM_BLOCKS_def)
  ultimately show ?thesis
    by (auto simp: held_used_blocks_def held_state_fields)
qed

lemma delete_file_tables:
  assumes ex: "host_files (host s) (full_path s fname) \<noteq> None"
    and ok: "full_path s fname \<notin> host_denied (host s)"
    and found: "find_entry (entries (root_directory s)) (entry_count (root_directory s)) fname 0 = Some i"
    and dlen: "length (direct_blocks (inode_table s ! nat (inode_number (entries (root_directory s) ! i))))
                 = DIRECT_BLOCKS"
  shows "superblock (delete_file s fname) =
           foldl free_block_sb (superblock s)
             (direct_blocks (inode_table s ! nat (inode_number (entries (root_directory s) ! i)))
              @ [index_block (inode_table s ! nat (inode_number (entries (root_directory s) ! i)))])"
    and "inode_table (delete_file s fname) =
           (inode_table s)
             [nat (inode_number (entries (root_directory s) ! i)) :=
                (inode_table s ! nat (inode_number (entries (root_directory s) ! i)))
                  \<lparr>direct_blocks := replicate DIRECT_BLOCKS (-1), index_block := -1,
                   is_directory := 0, i_size := 0,
                   mtime := clock (host s) (time_calls (host s)),
                   ctime := clock (host s) (Suc (time_calls (host s)))\<rparr>]"
proof -
  let ?ino = "inode_number (entries (root_directory s) ! i)"
  let ?h' = "(host s)\<lparr>host_files := (host_files (host s))(full_path s fname := None)\<rparr>"
  let ?s1 = "s\<lparr>host := ?h'\<rparr>"
  from ex ok have rm: "host_remove (host s) (full_path s fname) = Some ?h'"
    by (simp add: host_remove_def)
  have dlen1: "length (direct_blocks (inode_table ?s1 ! nat ?ino)) = DIRECT_BLOCKS"
    using dlen by simp
  have del: "delete_file s fname =
      add_journal_entry (remove_directory_entry ?s1 i) DELETE (Some fname) None None"
    using ex rm found by (auto simp: delete_file_def Let_def)
  have rel: "release_inode ?s1 ?ino =
      ?s1\<lparr>host := (host ?s1)\<lparr>time_calls := Suc (Suc (time_calls (host ?s1)))\<rparr>,
             superblock := foldl free_block_sb (superblock ?s1)
                 (direct_blocks (inode_table ?s1 ! nat ?ino) @ [index_block (inode_table ?s1 ! nat ?ino)]),
             inode_table := (inode_table ?s1)
               [nat ?ino := (inode_table ?s1 ! nat ?ino)
                  \<lparr>direct_blocks := replicate DIRECT_BLOCKS (-1), index_block := -1,
                   is_directory := 0, i_size := 0,
                   mtime := clock (host ?s1) (time_calls (host ?s1)),
                   ctime := clock (host ?s1) (Suc (time_calls (host ?s1)))\<rparr>]\<rparr>"
    by (rule release_inode_eq [OF dlen1])
  show "superblock (delete_file s fname) =
           foldl free_block_sb (superblock s)
             (direct_blocks (inode_table s ! nat ?ino) @ [index_block (inode_table s ! nat ?ino)])"
    unfolding del by (simp add: add_journal_entry_tables remove_directory_entry_def Let_def rel)
  show "inode_table (delete_file s fname) =
           (inode_table s)
             [nat ?ino := (inode_table s ! nat ?ino)
                  \<lparr>direct_blocks := replicate DIRECT_BLOCKS (-1), index_block := -1,
                   is_directory := 0, i_size := 0,
                   mtime := clock (host s) (time_calls (host s)),
                   ctime := clock (host s) (Suc (time_calls (host s)))\<rparr>]"
    unfolding del by (simp add: add_journal_entry_tables remove_directory_entry_def Let_def rel)
qed

text \<open>
  C7. When \<open>delete_file\<close> finds the file on the host, removes it there and finds its
  directory entry, the inode of that entry is released: all its direct block
  references and its index block reference are \<open>-1\<close> afterwards, its size and
  \<open>is_directory\<close> are 0, every block it referenced that the bitmap marked used is
  marked free, all other bitmap cells are unchanged, the free-block counter grows by
  the number of blocks thus freed, the free-inode counter is unchanged, and the other
  inode slots are unchanged.
\<close>

theorem delete_file_releases_inode:
  "host_files (host s) (full_path s fname) \<noteq> None
   \<and> full_path s fname \<notin> host_denied (host s)
   \<and> find_entry (entries (root_directory s)) (entry_count (root_directory s)) fname 0 = Some i
   \<and> inode_number (entries (root_directory s) ! i) = ino
   \<and> 0 \<le> ino \<and> ino < int INODE_TABLE_SIZE
   \<and> length (inode_table s) = INODE_TABLE_SIZE
   \<and> length (direct_blocks (inode_table s ! nat ino)) = DIRECT_BLOCKS
   \<and> length (free_block_bitmap (superblock s)) = NUM_BLOCKS
   \<longrightarrow>
     direct_blocks (inode_table (delete_file s fname) ! nat ino) = replicate DIRECT_BLOCKS (-1)
   \<and> index_block (inode_table (delete_file s fname) ! nat ino) = -1
   \<and> i_size (inode_table (delete_file s fname) ! nat ino) = 0
   \<and> is_directory (inode_table (delete_file s fname) ! nat ino) = 0
   \<and> (\<forall>b \<in> held_used_blocks (superblock s) (inode_table s ! nat ino).
         free_block_bitmap (superblock (delete_file s fname)) ! b = 0)
   \<and> (\<forall>b<NUM_BLOCKS. b \<notin> held_used_blocks (superblock s) (inode_table s ! nat ino) \<longrightarrow>
         free_block_bitmap (superblock (delete_file s fname)) ! b
           = free_block_bitmap (superblock s) ! b)
   \<and> free_blocks (superblock (delete_file s fname)) =
       free_blocks (superblock s)
         + int (card (held_used_blocks (superblock s) (inode_table s ! nat ino)))
   \<and> free_inode_count (superblock (delete_file s fname)) = free_inode_count (superblock s)
   \<and> (\<forall>k<INODE_TABLE_SIZE. k \<noteq> nat ino \<longrightarrow>
         inode_table (delete_file s fname) ! k = inode_table s ! k)"
proof (intro impI)
  let ?inode = "inode_table s ! nat ino"
  let ?s' = "delete_file s fname"
  let ?bs = "direct_blocks ?inode @ [index_block ?inode]"
  assume a: "host_files (host s) (full_path s fname) \<noteq> None
   \<and> full_path s fname \<notin> host_denied (host s)
   \<and> find_entry (entries (root_directory s)) (entry_count (root_directory s)) fname 0 = Some i
   \<and> inode_number (entries (root_directory s) ! i) = ino
   \<and> 0 \<le> ino \<and> ino < int INODE_TABLE_SIZE
   \<and> length (inode_table s) = INODE_TABLE_SIZE
   \<and> length (direct_blocks (inode_table s ! nat ino)) = DIRECT_BLOCKS
   \<and> length (free_block_bitmap (superblock s)) = NUM_BLOCKS"
  then have ex: "host_files (host s) (full_path s fname) \<noteq> None"
    and ok: "full_path s fname \<notin> host_denied (host s)"
    and found: "find_entry (entries (root_directory s)) (entry_count (root_directory s)) fname 0 = Some i"
    and ino: "inode_number (entries (root_directory s) ! i) = ino"
    and blen: "length (free_block_bitmap (superblock s)) = NUM_BLOCKS"
    by auto
  from a ino have dlen: "length (direct_blocks (inode_table s ! nat (inode_number (entries (root_directory s) ! i))))
                 = DIRECT_BLOCKS" by simp
  from a have nl: "nat ino < length (inode_table s)" by auto
  note t = delete_file_tables [OF ex ok found dlen, unfolded ino]
  note f = foldl_free_block_sb [OF blen, of ?bs, folded held_used_blocks_alt t(1)]
  have i1: "direct_blocks (inode_table ?s' ! nat ino) = replicate DIRECT_BLOCKS (-1)"
    and i2: "index_block (inode_table ?s' ! nat ino) = -1"
    and i3: "i_size (inode_table ?s' ! nat ino) = 0"
    and i4: "is_directory (inode_table ?s' ! nat ino) = 0"
    using nl by (simp_all add: t(2))
  have o: "\<forall>k<INODE_TABLE_SIZE. k \<noteq> nat ino \<longrightarrow> inode_table ?s' ! k = inode_table s ! k"
    by (simp add: t(2))
  have c: "free_inode_count (superblock ?s') = free_inode_count (superblock s)"
    by (simp add: t(1) foldl_free_block_sb_inode_count free_block_sb_def)
  have cells: "free_block_bitmap (superblock ?s') ! x =
      (if x \<in> held_used_blocks (superblock s) ?inode then 0 else free_block_bitmap (superblock s) ! x)"
    if "x < NUM_BLOCKS" for x
  proof -
    from f that have "free_block_bitmap (superblock ?s') ! x =
        (if int x \<in> set ?bs \<and> free_block_bitmap (superblock s) ! x = 1 then 0
         else free_block_bitmap (superblock s) ! x)" by blast
    with that show ?thesis by (simp add: held_used_blocks_alt)
  qed
  have b1: "\<forall>b \<in> held_used_blocks (superblock s) ?inode. free_block_bitmap (superblock ?s') ! b = 0"
  proof
    fix b assume b: "b \<in> held_used_blocks (superblock s) ?inode"
    then have "b < NUM_BLOCKS" by (simp add: held_used_blocks_alt)
    from cells [OF this] b show "free_block_bitmap (superblock ?s') ! b = 0" by simp
  qed
  have b2: "\<forall>b<NUM_BLOCKS. b \<notin> held_used_blocks (superblock s) ?inode \<longrightarrow>
         free_block_bitmap (superblock ?s') ! b = free_block_bitmap (superblock s) ! b"
    using cells by simp
  from f have b3: "free_blocks (superblock ?s') =
       free_blocks (superblock s) + int (card (held_used_blocks (superblock s) ?inode))"
    by blast
  from i1 i2 i3 i4 b1 b2 b3 c o
  show "direct_blocks (inode_table ?s' ! nat ino) = replicate DIRECT_BLOCKS (-1)
   \<and> index_block (inode_table ?s' ! nat ino) = -1
   \<and> i_size (inode_table ?s' ! nat ino) = 0
   \<and> is_directory (inode_table ?s' ! nat ino) = 0
   \<and> (\<forall>b \<in> held_used_blocks (superblock s) ?inode.
         free_block_bitmap (superblock ?s') ! b = 0)
   \<and> (\<forall>b<NUM_BLOCKS. b \<notin> held_used_blocks (superblock s) ?inode \<longrightarrow>
         free_block_bitmap (superblock ?s') ! b = free_block_bitmap (superblock s) ! b)
   \<and> free_blocks (superblock ?s') =
       free_blocks (superblock s) + int (card (held_used_blocks (superblock s) ?inode))
   \<and> free_inode_count (superblock ?s') = free_inode_count (superblock s)
   \<and> (\<forall>k<INODE_TABLE_SIZE. k \<noteq> nat ino \<longrightarrow> inode_table ?s' ! k = inode_table s ! k)"
    by blast
qed

theorem delete_file_releases_inode_witness:
  "direct_blocks (inode_table held_state ! 0) ! 0 = 0
   \<and> free_block_bitmap (superblock held_state) ! 0 = 1
   \<and> free_blocks (superblock held_state) = 1022
   \<and> direct_blocks (inode_table (delete_file held_state ''a.txt'') ! 0) = replicate DIRECT_BLOCKS (-1)
   \<and> index_block (inode_table (delete_file held_state ''a.txt'') ! 0) = -1
   \<and> i_size (inode_table (delete_file held_state ''a.txt'') ! 0) = 0
   \<and> is_directory (inode_table (delete_file held_state ''a.txt'') ! 0) = 0
   \<and> free_block_bitmap (superblock (delete_file held_state ''a.txt'')) ! 0 = 0
   \<and> free_block_bitmap (superblock (delete_file held_state ''a.txt'')) ! 1
       = free_block_bitmap (superblock held_state) ! 1
   \<and> free_blocks (superblock (delete_file held_state ''a.txt'')) = 1023
   \<and> free_inode_count (superblock (delete_file held_state ''a.txt'')) = 127
   \<and> inode_table (delete_file held_state ''a.txt'') ! 1 = inode_table held_state ! 1"
proof -
  have fp: "full_path held_state ''a.txt'' = ''C:/tests/a.txt''"
    by (simp add: full_path_def held_state_fields MAX_FILENAME_LEN_def)
  have fe: "find_entry (entries (root_directory held_state)) (entry_count (root_directory held_state))
              ''a.txt'' 0 = Some 0"
    by (subst find_entry.simps) (simp add: held_state_fields MAX_FILES_def)
  have h: "host_files (host held_state) (full_path held_state ''a.txt'') \<noteq> None
   \<and> full_path held_state ''a.txt'' \<notin> host_denied (host held_state)
   \<and> find_entry (entries (root_directory held_state)) (entry_count (root_directory held_state))
        ''a.txt'' 0 = Some 0
   \<and> inode_number (entries (root_directory held_state) ! 0) = 0
   \<and> (0::int) \<le> 0 \<and> 0 < int INODE_TABLE_SIZE
   \<and> length (inode_table held_state) = INODE_TABLE_SIZE
   \<and> length (direct_blocks (inode_table held_state ! nat 0)) = DIRECT_BLOCKS
   \<and> length (free_block_bitmap (superblock held_state)) = NUM_BLOCKS"
    using fe by (simp add: fp held_state_fields MAX_FILES_def INODE_TABLE_SIZE_def)
  from delete_file_releases_inode [where s = held_state and fname = "''a.txt''" and i = 0
      and ino = 0] h
  have r: "direct_blocks (inode_table (delete_file held_state ''a.txt'') ! nat 0)
             = replicate DIRECT_BLOCKS (-1)"
    "index_block (inode_table (delete_file held_state ''a.txt'') ! nat 0) = -1"
    "i_size (inode_table (delete_file held_state ''a.txt'') ! nat 0) = 0"
    "is_directory (inode_table (delete_file held_state ''a.txt'') ! nat 0) = 0"
    "\<forall>b \<in> held_used_blocks (superblock held_state) (inode_table held_state ! nat 0).
         free_block_bitmap (superblock (delete_file held_state ''a.txt'')) ! b = 0"
    "\<forall>b<NUM_BLOCKS. b \<notin> held_used_blocks (superblock held_state) (inode_table held_state ! nat 0) \<longrightarrow>
         free_block_bitmap (superblock (delete_file held_state ''a.txt'')) ! b
           = free_block_bitmap (superblock held_state) ! b"
    "free_blocks (superblock (delete_file held_state ''a.txt'')) =
       free_blocks (superblock held_state)
         + int (card (held_used_blocks (superblock held_state) (inode_table held_state ! nat 0)))"
    "free_inode_count (superblock (delete_file held_state ''a.txt''))
       = free_inode_count (superblock held_state)"
    "\<forall>k<INODE_TABLE_SIZE. k \<noteq> nat 0 \<longrightarrow>
         inode_table (delete_file held_state ''a.txt'') ! k = inode_table held_state ! k"
    by blast+
  have a: "direct_blocks (inode_table held_state ! 0) ! 0 = 0"
    by (simp add: held_state_fields DIRECT_BLOCKS_def)
  have b: "free_block_bitmap (superblock held_state) ! 0 = 1"
    by (simp add: held_state_fields NUM_BLOCKS_def)
  from r(5) have c: "free_block_bitmap (superblock (delete_file held_state ''a.txt'')) ! 0 = 0"
    by (simp add: held_state_blocks)
  from r(6) have d: "free_block_bitmap (superblock (delete_file held_state ''a.txt'')) ! 1
       = free_block_bitmap (superblock held_state) ! 1"
    by (simp add: held_state_blocks NUM_BLOCKS_def)
  from r(7) have e: "free_blocks (superblock (delete_file held_state ''a.txt'')) = 1023"
    by (simp add: held_state_blocks held_state_fields(4))
  from r(9) have f: "inode_table (delete_file held_state ''a.txt'') ! 1 = inode_table held_state ! 1"
    by (simp add: INODE_TABLE_SIZE_def)
  from r(1-4) r(8) a b c d e f show ?thesis
    by (simp add: held_state_fields(4,5))
qed

section \<open>Reloading and replaying the journal: lemmas and claim C2\<close>

lemma replay_journal_from_inert:
  "(\<forall>k. i \<le> k \<and> k < JOURNAL_SIZE \<longrightarrow> replay_entry s (journal s ! k) = s)
     \<Longrightarrow> replay_journal_from s i = s"
proof (induction s i rule: replay_journal_from.induct)
  case (1 s i)
  show ?case
  proof (cases "i < JOURNAL_SIZE")
    case False
    then show ?thesis by (subst replay_journal_from.simps) simp
  next
    case True
    with "1.prems" have here: "replay_entry s (journal s ! i) = s" by simp
    from "1.prems" have rest: "\<forall>k. Suc i \<le> k \<and> k < JOURNAL_SIZE \<longrightarrow> replay_entry s (journal s ! k) = s"
      by simp
    have "replay_journal_from s i = replay_journal_from (replay_entry s (journal s ! i)) (Suc i)"
      using True by (subst replay_journal_from.simps) simp
    also have "\<dots> = replay_journal_from s (Suc i)" by (simp add: here)
    also have "\<dots> = s"
      using "1.IH" [OF True] rest here by simp
    finally show ?thesis .
  qed
qed

lemma operation_tag_round_trip:
  "string_to_operation (operation_to_string (Some operation))
     = (if operation = READ then Some READ else None)"
  by (cases operation) (simp_all add: string_to_operation_def operation_to_string_def)

lemma created_state_log:
  "journal_log (host created_state) = Some ''1700000001 CREATED a.txt  \<newline>''"
proof -
  let ?pre = "(add_directory_entry (snd (create_inode fresh_state 0 0x1FF 11 10)) ''a.txt'' 0)
            \<lparr>host := (host fresh_state)\<lparr>time_calls := Suc (time_calls (host fresh_state)),
                 host_files := (host_files (host fresh_state))(''C:/tests/a.txt'' \<mapsto> [])\<rparr>\<rparr>"
  let ?e = "\<lparr>je_operation = Some CREATE, je_filename = ''a.txt'', je_new_filename = [],
       je_data = [], je_timestamp = 1700000001\<rparr>"
  have cs: "created_state = add_journal_entry ?pre CREATE (Some ''a.txt'') None None"
    by (simp add: created_state_def created_state_eq)
  have N: "0 < JOURNAL_SIZE" by (simp add: JOURNAL_SIZE_def)
  have pre: "journal ?pre = replicate JOURNAL_SIZE zero_journal_entry" "journal_index ?pre = 0"
    "clock (host ?pre) (time_calls (host ?pre)) = 1700000001"
    "journal_log_writable (host ?pre)"
    by (simp_all add: add_directory_entry_def fresh_state_create fresh_state_journal example_host_def)
  have j: "journal created_state = ?e # replicate (JOURNAL_SIZE - 1) zero_journal_entry"
    unfolding cs using N
    by (simp add: add_journal_entry_fields replicate_update_0 stored_entry_def
        MAX_FILENAME_LEN_def add_directory_entry_def fresh_state_create fresh_state_journal
        example_host_def)
  have "take JOURNAL_SIZE (journal created_state) = journal created_state"
    using N by (simp add: j)
  moreover have "filter (\<lambda>e. je_timestamp e \<noteq> 0) (replicate (JOURNAL_SIZE - 1) zero_journal_entry) = []"
    by (rule filter_replicate_none) (simp add: zero_journal_entry_def)
  ultimately have f: "filter (\<lambda>e. je_timestamp e \<noteq> 0) (take JOURNAL_SIZE (journal created_state)) = [?e]"
    by (simp add: j)
  have "journal_log (host created_state) =
      Some (concat (map journal_line
        (filter (\<lambda>e. je_timestamp e \<noteq> 0) (take JOURNAL_SIZE (journal created_state)))))"
    using add_journal_entry_log [of ?pre CREATE "''a.txt''" None None] pre(4)
    unfolding cs [symmetric] by simp
  then show ?thesis
    by (simp add: f journal_line_def dec_long_example_1 operation_to_string_def)
qed

lemma created_state_snapshot: "snapshot (host created_state) = None"
  by (simp add: created_state_def created_state_eq add_journal_entry_snapshot fresh_state_journal
      example_host_def)

lemma restarted_state_fields:
  "journal (restarted_state files) = replicate JOURNAL_SIZE zero_journal_entry"
  "entry_count (root_directory (restarted_state files)) = 0"
  "journal_log (host (restarted_state files)) = Some ''1700000001 CREATED a.txt  \<newline>''"
  by (simp_all add: restarted_state_def init_file_system_def load_file_system_state_def
      startup_state_def created_state_snapshot created_state_log)

lemma fgets_example:
  "fgets_lines 1023 [] ''1700000001 CREATED a.txt  \<newline>''
     = [''1700000001 CREATED a.txt  \<newline>'']"
  by simp

lemma scan_long_example:
  "scan_long ''1700000001 CREATED a.txt  \<newline>''
     = Some (1700000001, '' CREATED a.txt  \<newline>'')"
  by (simp add: scan_long_def is_space_def is_digit_def digit_value_def Let_def)

lemma sscanf_example:
  "sscanf_line ''1700000001 CREATED a.txt  \<newline>'' b
     = (3, b\<lparr>buf_timestamp := 1700000001, buf_op_str := ''CREATED'', buf_filename := ''a.txt''\<rparr>)"
  by (simp add: sscanf_line_def scan_long_example scan_word_def is_space_def Let_def)

lemma init_journal_restarted:
  "init_journal (restarted_state files) b =
     (restarted_state files)
       \<lparr>journal := (replicate JOURNAL_SIZE zero_journal_entry)
          [0 := \<lparr>je_operation = None, je_filename = ''a.txt'',
                 je_new_filename = take (MAX_FILENAME_LEN - 1) (buf_new_filename b),
                 je_data = take (BLOCK_SIZE - 1) (buf_data b),
                 je_timestamp = 1700000001\<rparr>],
        journal_index := 1\<rparr>"
  by (simp add: init_journal_def restarted_state_fields fgets_example sscanf_example
      string_to_operation_def JOURNAL_SIZE_def MAX_FILENAME_LEN_def)

lemma replay_restarted:
  "replay_journal (init_journal (restarted_state files) b) = init_journal (restarted_state files) b"
proof -
  let ?s = "init_journal (restarted_state files) b"
  have "replay_entry ?s (journal ?s ! k) = ?s" if "k < JOURNAL_SIZE" for k
  proof (cases k)
    case 0
    then show ?thesis
      by (simp add: init_journal_restarted replay_entry_def JOURNAL_SIZE_def)
  next
    case (Suc m)
    with that have "journal ?s ! k = zero_journal_entry"
      by (simp add: init_journal_restarted)
    then show ?thesis by (simp add: replay_entry_def zero_journal_entry_def)
  qed
  then show ?thesis
    unfolding replay_journal_def by (intro replay_journal_from_inert) simp
qed

text \<open>
  C2 (saving the journal, reloading it into a fresh journal and replaying it leaves the
  directory as direct execution does). For the single operation
  \<open>create_file("a.txt", 0)\<close> on a fresh file system: direct execution leaves the entry
  \<open>a.txt\<close> for inode 0 in the directory and the line \<open>1700000001 CREATED a.txt\<close> in
  the log. \<open>string_to_operation\<close> does not know the tag \<open>CREATED\<close> that
  \<open>operation_to_string\<close> printed, so the reloaded entry has the unknown operation, and
  \<open>replay_journal\<close> changes nothing: whatever files the host has and whatever the
  local buffers of \<open>init_journal\<close> held, the directory is empty after the replay.
\<close>

theorem journal_reload_replay_loses_create:
  "find_inode_by_filename created_state ''a.txt'' = 0
   \<and> entry_count (root_directory created_state) = 1
   \<and> je_operation (journal created_state ! 0) = Some CREATE
   \<and> journal_log (host created_state) = Some ''1700000001 CREATED a.txt  \<newline>''
   \<and> string_to_operation ''CREATED'' = None
   \<and> je_operation (journal (init_journal (restarted_state files) b) ! 0) = None
   \<and> replay_journal (init_journal (restarted_state files) b) = init_journal (restarted_state files) b
   \<and> entry_count (root_directory (replay_journal (init_journal (restarted_state files) b))) = 0
   \<and> find_inode_by_filename (replay_journal (init_journal (restarted_state files) b)) ''a.txt'' = -1"
proof -
  have fe: "find_entry (entries (root_directory created_state)) (entry_count (root_directory created_state))
              ''a.txt'' 0 = Some 0"
    by (subst find_entry.simps) (simp add: created_state_fields MAX_FILES_def)
  have a: "find_inode_by_filename created_state ''a.txt'' = 0"
    by (simp add: find_inode_by_filename_def fe) (simp add: created_state_fields MAX_FILES_def)
  have b: "entry_count (root_directory created_state) = 1"
    by (simp add: created_state_fields)
  have N: "0 < JOURNAL_SIZE" by (simp add: JOURNAL_SIZE_def)
  have c: "je_operation (journal created_state ! 0) = Some CREATE"
    using N
    by (simp add: created_state_def created_state_eq add_journal_entry_fields stored_entry_def
        add_directory_entry_def fresh_state_create fresh_state_journal)
  have d: "string_to_operation ''CREATED'' = None" by (simp add: string_to_operation_def)
  have e: "je_operation (journal (init_journal (restarted_state files) b) ! 0) = None"
    using N by (simp add: init_journal_restarted)
  note f = replay_restarted [of files b]
  have g: "entry_count (root_directory (init_journal (restarted_state files) b)) = 0"
    by (simp add: init_journal_restarted restarted_state_fields)
  have "find_entry (entries (root_directory (init_journal (restarted_state files) b))) 0 ''a.txt'' 0 = None"
    by (subst find_entry.simps) simp
  with g have h: "find_inode_by_filename (init_journal (restarted_state files) b) ''a.txt'' = -1"
    by (simp add: find_inode_by_filename_def)
  from a b c created_state_log d e f g h show ?thesis by simp
qed

end
